theory Spec2Isabelle
  imports Main "HOL-Library.Word"
begin

unbundle bit_operations_syntax

section \<open>Python strings\<close>

text \<open>
  A Python \<^verbatim>\<open>str\<close> that names something (an identifier, a file name, a binary
  name, an argument, a path) is a \<^typ>\<open>string\<close>: one \<^typ>\<open>char\<close> per code point,
  code points 0 to 255. The methods below are the ones \<^verbatim>\<open>server/app.py\<close> and
  \<^verbatim>\<open>uuid.UUID\<close> call.
\<close>

text \<open>\<^verbatim>\<open>s.startswith(prefix)\<close>\<close>

fun startswith :: "string \<Rightarrow> string \<Rightarrow> bool" where
  "startswith s [] = True"
| "startswith [] (p # ps) = False"
| "startswith (c # cs) (p # ps) = (c = p \<and> startswith cs ps)"

text \<open>\<^verbatim>\<open>s.endswith(suffix)\<close>\<close>

definition endswith :: "string \<Rightarrow> string \<Rightarrow> bool" where
  "endswith s suffix = startswith (rev s) (rev suffix)"

text \<open>\<^verbatim>\<open>sub in s\<close>\<close>

fun contains :: "string \<Rightarrow> string \<Rightarrow> bool" where
  "contains sub [] = (sub = [])"
| "contains sub (c # cs) = (startswith (c # cs) sub \<or> contains sub cs)"

text \<open>
  \<^verbatim>\<open>s.replace(old, '')\<close> for a non-empty \<^verbatim>\<open>old\<close>: the occurrences are removed
  from left to right, without overlap.
\<close>

fun remove_sub :: "string \<Rightarrow> string \<Rightarrow> string" where
  "remove_sub old [] = []"
| "remove_sub old (c # cs) =
     (if old \<noteq> [] \<and> startswith (c # cs) old
      then remove_sub old (drop (length old - 1) cs)
      else c # remove_sub old cs)"

text \<open>\<^verbatim>\<open>s.strip(chars)\<close>\<close>

definition strip :: "string \<Rightarrow> string \<Rightarrow> string" where
  "strip chars s =
     rev (dropWhile (\<lambda>c. c \<in> set chars) (rev (dropWhile (\<lambda>c. c \<in> set chars) s)))"

text \<open>
  \<^verbatim>\<open>s.lower()\<close>. Only the letters A to Z have an ASCII lower case; the other code
  points are kept (their lower case, when they have one, is not ASCII either, and the
  result is only compared with the ASCII suffix \<^verbatim>\<open>.cha\<close>).
\<close>

definition lower_char :: "char \<Rightarrow> char" where
  "lower_char c =
     (case map_of (zip ''ABCDEFGHIJKLMNOPQRSTUVWXYZ'' ''abcdefghijklmnopqrstuvwxyz'') c of
        None \<Rightarrow> c
      | Some l \<Rightarrow> l)"

definition lower :: "string \<Rightarrow> string" where
  "lower s = map lower_char s"

definition ascii_letters_digits :: string where
  "ascii_letters_digits =
     ''abcdefghijklmnopqrstuvwxyzABCDEFGHIJKLMNOPQRSTUVWXYZ0123456789''"

text \<open>
  \<^verbatim>\<open>re.match(r'^[cls]+$', v)\<close> for a character class without the newline: the class
  matches a non-empty run, and \<^verbatim>\<open>$\<close> matches at the end of the string and also just
  before a newline that ends the string.
\<close>

definition re_match_class :: "string \<Rightarrow> string \<Rightarrow> bool" where
  "re_match_class cls v =
     (let body = (if v \<noteq> [] \<and> last v = CHR 0x0A then butlast v else v)
      in body \<noteq> [] \<and> list_all (\<lambda>c. c \<in> set cls) body)"

section \<open>\<^verbatim>\<open>uuid.UUID\<close> and \<^verbatim>\<open>uuid.uuid4\<close> of the standard library\<close>

text \<open>
  \<^verbatim>\<open>int(s, 16)\<close>, as CPython reads a \<^verbatim>\<open>str\<close>: a string with a code point
  above 127 is first rewritten (a space for the Unicode spaces, cut at the first
  other code point from 127 on, which leaves a \<^verbatim>\<open>?\<close> no number holds); then white
  space, a sign, an optional \<^verbatim>\<open>0x\<close> with one underscore, a run of digits with single
  underscores between them, and white space up to the end.
\<close>

fun transform_spaces :: "string \<Rightarrow> string" where
  "transform_spaces [] = []"
| "transform_spaces (c # cs) =
     (if (of_char c :: nat) < 127 then c # transform_spaces cs
      else if c = CHR 0x85 \<or> c = CHR 0xA0 then CHR '' '' # transform_spaces cs
      else ''?'')"

definition to_ascii :: "string \<Rightarrow> string" where
  "to_ascii s = (if list_all (\<lambda>c. (of_char c :: nat) < 128) s then s else transform_spaces s)"

definition isspace :: "char \<Rightarrow> bool" where
  "isspace c = (c \<in> set [CHR '' '', CHR 0x09, CHR 0x0A, CHR 0x0B, CHR 0x0C, CHR 0x0D])"

definition digit_value :: "char \<Rightarrow> nat option" where
  "digit_value c =
     (let n = (of_char c :: nat) in
      if 48 \<le> n \<and> n \<le> 57 then Some (n - 48)
      else if 97 \<le> n \<and> n \<le> 122 then Some (n - 87)
      else if 65 \<le> n \<and> n \<le> 90 then Some (n - 55)
      else None)"

definition is_digit16 :: "char \<Rightarrow> bool" where
  "is_digit16 c = (case digit_value c of None \<Rightarrow> False | Some d \<Rightarrow> d < 16)"

definition digits16_value :: "string \<Rightarrow> nat" where
  "digits16_value ds = foldl (\<lambda>a c. 16 * a + the (digit_value c)) 0 ds"

definition int_base16 :: "string \<Rightarrow> int option" where
  "int_base16 s0 =
     (let s1 = dropWhile isspace (to_ascii s0);
          negative = startswith s1 ''-'';
          s2 = (if startswith s1 ''+'' \<or> startswith s1 ''-'' then tl s1 else s1);
          s3 = (if startswith s2 ''0x'' \<or> startswith s2 ''0X''
                then (if startswith (drop 2 s2) ''_'' then drop 3 s2 else drop 2 s2)
                else s2);
          run = takeWhile (\<lambda>c. is_digit16 c \<or> c = CHR ''_'') s3;
          rest = dropWhile (\<lambda>c. is_digit16 c \<or> c = CHR ''_'') s3
      in if startswith s3 ''_'' \<or> contains ''__'' run \<or> run = [] \<or> last run = CHR ''_''
            \<or> \<not> list_all isspace rest
         then None
         else let n = int (digits16_value (filter (\<lambda>c. c \<noteq> CHR ''_'') run))
              in Some (if negative then - n else n))"

text \<open>
  \<^verbatim>\<open>uuid.UUID(hex)\<close>: the 128-bit integer of the UUID, or \<open>None\<close> where it raises
  \<^verbatim>\<open>ValueError\<close>.
\<close>

definition UUID :: "string \<Rightarrow> int option" where
  "UUID v =
     (let hex = remove_sub ''uuid:'' (remove_sub ''urn:'' v);
          hex = remove_sub ''-'' (strip ''{}'' hex)
      in if length hex \<noteq> 32 then None
         else case int_base16 hex of
                None \<Rightarrow> None
              | Some i \<Rightarrow> if 0 \<le> i \<and> i < 2 ^ 128 then Some i else None)"

text \<open>
  \<^verbatim>\<open>uuid.uuid4()\<close> is \<^verbatim>\<open>UUID(bytes=os.urandom(16), version=4)\<close>: the sixteen random
  bytes, read as a big-endian integer \<open>r\<close>, with the variant and version bits set.
  The random bytes are an input of the model.
\<close>

definition uuid4 :: "128 word \<Rightarrow> 128 word" where
  "uuid4 r =
     (((r AND NOT (push_bit 48 0xc000)) OR push_bit 48 0x8000)
         AND NOT (push_bit 64 0xf000)) OR push_bit 76 4"

definition hex_digit :: "nat \<Rightarrow> char" where
  "hex_digit d = ''0123456789abcdef'' ! (d mod 16)"

text \<open>\<^verbatim>\<open>'%032x' % self.int\<close>\<close>

definition hex32 :: "128 word \<Rightarrow> string" where
  "hex32 w = map (\<lambda>i. hex_digit (unat (drop_bit (4 * (31 - i)) w AND 0xf))) [0..<32]"

text \<open>\<^verbatim>\<open>str(uuid)\<close>\<close>

definition str_UUID :: "128 word \<Rightarrow> string" where
  "str_UUID w =
     (let hex = hex32 w
      in take 8 hex @ ''-'' @ take 4 (drop 8 hex) @ ''-'' @ take 4 (drop 12 hex) @ ''-''
           @ take 4 (drop 16 hex) @ ''-'' @ drop 20 hex)"

section \<open>UTF-8 and text files\<close>

text \<open>
  \<^verbatim>\<open>bytes\<close> are lists of 8-bit words. The text of a file (what \<^verbatim>\<open>decode('utf-8')\<close>
  and a read in text mode return) is a list of code points.
\<close>

type_synonym bytes = "8 word list"
type_synonym unicode = "nat list"

definition continuation :: "nat \<Rightarrow> bool" where
  "continuation b = (0x80 \<le> b \<and> b \<le> 0xBF)"

text \<open>
  \<^verbatim>\<open>content.decode('utf-8')\<close>, strict: \<open>None\<close> where it raises
  \<^verbatim>\<open>UnicodeDecodeError\<close> (a stray or missing continuation byte, an overlong form, a
  surrogate, a code point above 0x10FFFF).
\<close>

fun decode_nat :: "nat list \<Rightarrow> unicode option" where
  "decode_nat [] = Some []"
| "decode_nat (b0 # bs) =
     (if b0 < 0x80 then map_option ((#) b0) (decode_nat bs)
      else if 0xC2 \<le> b0 \<and> b0 \<le> 0xDF then
        (case bs of
           b1 # r \<Rightarrow>
             if continuation b1
             then map_option ((#) ((b0 - 0xC0) * 64 + (b1 - 0x80))) (decode_nat r)
             else None
         | _ \<Rightarrow> None)
      else if 0xE0 \<le> b0 \<and> b0 \<le> 0xEF then
        (case bs of
           b1 # b2 # r \<Rightarrow>
             if continuation b1 \<and> continuation b2
                \<and> (if b0 = 0xE0 then 0xA0 \<le> b1 else True)
                \<and> (if b0 = 0xED then b1 \<le> 0x9F else True)
             then map_option ((#) ((b0 - 0xE0) * 4096 + (b1 - 0x80) * 64 + (b2 - 0x80)))
                    (decode_nat r)
             else None
         | _ \<Rightarrow> None)
      else if 0xF0 \<le> b0 \<and> b0 \<le> 0xF4 then
        (case bs of
           b1 # b2 # b3 # r \<Rightarrow>
             if continuation b1 \<and> continuation b2 \<and> continuation b3
                \<and> (if b0 = 0xF0 then 0x90 \<le> b1 else True)
                \<and> (if b0 = 0xF4 then b1 \<le> 0x8F else True)
             then map_option
                    ((#) ((b0 - 0xF0) * 262144 + (b1 - 0x80) * 4096 + (b2 - 0x80) * 64
                          + (b3 - 0x80)))
                    (decode_nat r)
             else None
         | _ \<Rightarrow> None)
      else None)"

definition decode_utf8 :: "bytes \<Rightarrow> unicode option" where
  "decode_utf8 content = decode_nat (map unat content)"

text \<open>
  \<^verbatim>\<open>s.encode('utf-8')\<close>: \<open>None\<close> where it raises \<^verbatim>\<open>UnicodeEncodeError\<close> (a
  surrogate; a \<^verbatim>\<open>str\<close> holds no code point above 0x10FFFF).
\<close>

definition encode_char :: "nat \<Rightarrow> nat list option" where
  "encode_char c =
     (if c < 0x80 then Some [c]
      else if c < 0x800 then Some [0xC0 + c div 64, 0x80 + c mod 64]
      else if 0xD800 \<le> c \<and> c \<le> 0xDFFF then None
      else if c < 0x10000 then Some [0xE0 + c div 4096, 0x80 + c div 64 mod 64, 0x80 + c mod 64]
      else if c < 0x110000 then
        Some [0xF0 + c div 262144, 0x80 + c div 4096 mod 64, 0x80 + c div 64 mod 64,
              0x80 + c mod 64]
      else None)"

fun encode_nat :: "unicode \<Rightarrow> nat list option" where
  "encode_nat [] = Some []"
| "encode_nat (c # cs) =
     (case encode_char c of
        None \<Rightarrow> None
      | Some bs \<Rightarrow> map_option ((@) bs) (encode_nat cs))"

definition encode_utf8 :: "unicode \<Rightarrow> bytes option" where
  "encode_utf8 s = map_option (map of_nat) (encode_nat s)"

text \<open>
  A file opened with \<^verbatim>\<open>open(path, 'r', encoding='utf-8')\<close> is read with universal
  newlines (\<^verbatim>\<open>newline=None\<close>, the default): \<^verbatim>\<open>\r\n\<close> and a lone \<^verbatim>\<open>\r\<close> both
  reach the caller as \<^verbatim>\<open>\n\<close>.
\<close>

fun universal_newlines :: "unicode \<Rightarrow> unicode" where
  "universal_newlines [] = []"
| "universal_newlines [c] = [if c = 13 then 10 else c]"
| "universal_newlines (c # d # cs) =
     (if c = 13 \<and> d = 10 then 10 # universal_newlines cs
      else if c = 13 then 10 # universal_newlines (d # cs)
      else c # universal_newlines (d # cs))"

section \<open>Paths\<close>

text \<open>
  A \<^verbatim>\<open>pathlib.Path\<close> is the list of the components of an absolute path. The server
  builds every path from one of its two absolute constants.
\<close>

type_synonym path = "string list"

fun split_slash :: "string \<Rightarrow> string list" where
  "split_slash [] = [[]]"
| "split_slash (c # cs) =
     (if c = CHR ''/'' then [] # split_slash cs
      else case split_slash cs of
             [] \<Rightarrow> [[c]]
           | p # ps \<Rightarrow> (c # p) # ps)"

text \<open>The components of a path string: empty components and \<^verbatim>\<open>.\<close> are dropped.\<close>

definition Path_parts :: "string \<Rightarrow> string list" where
  "Path_parts s = filter (\<lambda>c. c \<noteq> [] \<and> c \<noteq> ''.'') (split_slash s)"

text \<open>
  \<^verbatim>\<open>path / segment\<close>: an absolute segment replaces the path. (A segment that starts
  with exactly two slashes would keep them as its root in pathlib; every segment the
  server joins has passed a validator that leaves it no slash.)
\<close>

definition path_div :: "path \<Rightarrow> string \<Rightarrow> path" where
  "path_div p segment =
     (if startswith segment ''/'' then Path_parts segment else p @ Path_parts segment)"

text \<open>\<^verbatim>\<open>str(path)\<close>\<close>

definition str_path :: "path \<Rightarrow> string" where
  "str_path p = (if p = [] then ''/'' else concat (map (\<lambda>c. ''/'' @ c) p))"

text \<open>\<^verbatim>\<open>os.path.basename(p)\<close>\<close>

definition basename :: "string \<Rightarrow> string" where
  "basename p = last (split_slash p)"

section \<open>Constants\<close>

definition WORK_DIR :: path where
  "WORK_DIR = [''webclan'', ''work'']"

definition BIN_DIR :: path where
  "BIN_DIR = [''webclan'', ''unix'', ''bin'']"

definition MAX_FILE_SIZE :: nat where
  "MAX_FILE_SIZE = 100 * 1024 * 1024"

definition COMMAND_TIMEOUT :: nat where
  "COMMAND_TIMEOUT = 300"

definition ALLOWED_EXTENSION :: string where
  "ALLOWED_EXTENSION = ''.cha''"

text \<open>\<^verbatim>\<open>str(n)\<close> for a natural number, as the f-strings of the server format it.\<close>

fun str_nat :: "nat \<Rightarrow> string" where
  "str_nat n =
     (if n < 10 then [''0123456789'' ! n]
      else str_nat (n div 10) @ [''0123456789'' ! (n mod 10)])"

declare str_nat.simps [simp del]

section \<open>The file system\<close>

text \<open>
  The file system the server runs on: an association list from the real (symlink-free)
  absolute path of every node to the node. A file carries its bytes and whether it is
  executable; a symbolic link carries its target as written. The root is a directory.
\<close>

datatype node = Dir | File bytes bool | Symlink string

type_synonym fs = "(path \<times> node) list"

datatype os_error =
  FileExistsError | FileNotFoundError | NotADirectoryError | IsADirectoryError | OSError

definition node_at :: "fs \<Rightarrow> path \<Rightarrow> node option" where
  "node_at fs p = (if p = [] then Some Dir else map_of fs p)"

definition under :: "path \<Rightarrow> path \<Rightarrow> bool" where
  "under d p = (take (length d) p = d)"

definition SYMLOOP_MAX :: nat where
  "SYMLOOP_MAX = 40"

text \<open>
  Path resolution, component by component from the resolved prefix \<open>cur\<close>: \<^verbatim>\<open>..\<close>
  steps up, a symbolic link is replaced by its target (at most \<open>n\<close> more times; then
  the walk fails as the kernel does on a loop), anything else is stepped into. The
  strict walk is the kernel's own (a missing or non-directory component before the
  last one fails); the other one is \<^verbatim>\<open>os.path.realpath\<close>, which appends what it cannot
  resolve.
\<close>

function walk :: "bool \<Rightarrow> nat \<Rightarrow> fs \<Rightarrow> path \<Rightarrow> string list \<Rightarrow> os_error + path" where
  "walk strict n fs cur [] = Inr cur"
| "walk strict n fs cur (c # cs) =
     (if c = ''..'' then walk strict n fs (butlast cur) cs
      else case map_of fs (cur @ [c]) of
             Some (Symlink target) \<Rightarrow>
               if n = 0 then Inl OSError
               else walk strict (n - 1) fs (if startswith target ''/'' then [] else cur)
                      (Path_parts target @ cs)
           | Some Dir \<Rightarrow> walk strict n fs (cur @ [c]) cs
           | Some (File d x) \<Rightarrow>
               if strict \<and> cs \<noteq> [] then Inl NotADirectoryError
               else walk strict n fs (cur @ [c]) cs
           | None \<Rightarrow>
               if strict \<and> cs \<noteq> [] then Inl FileNotFoundError
               else walk strict n fs (cur @ [c]) cs)"
  by pat_completeness auto
termination
  by (relation "measures [\<lambda>(s, n, fs, cur, cs). n, \<lambda>(s, n, fs, cur, cs). length cs]") auto

text \<open>\<^verbatim>\<open>path.resolve()\<close>; the error is the \<^verbatim>\<open>RuntimeError\<close> of a symlink loop.\<close>

definition resolve :: "fs \<Rightarrow> path \<Rightarrow> os_error + path" where
  "resolve fs p = walk False SYMLOOP_MAX fs [] p"

text \<open>\<^verbatim>\<open>os.stat(path)\<close>: the node a path leads to, symbolic links followed.\<close>

definition stat :: "fs \<Rightarrow> path \<Rightarrow> os_error + node" where
  "stat fs p =
     (case walk True SYMLOOP_MAX fs [] p of
        Inl e \<Rightarrow> Inl e
      | Inr rp \<Rightarrow> (case node_at fs rp of None \<Rightarrow> Inl FileNotFoundError | Some n \<Rightarrow> Inr n))"

text \<open>\<^verbatim>\<open>path.exists()\<close>, \<^verbatim>\<open>path.is_dir()\<close>, \<^verbatim>\<open>path.is_file()\<close>: every error is \<open>False\<close>.\<close>

definition path_exists :: "fs \<Rightarrow> path \<Rightarrow> bool" where
  "path_exists fs p = (case stat fs p of Inl e \<Rightarrow> False | Inr n \<Rightarrow> True)"

definition is_dir :: "fs \<Rightarrow> path \<Rightarrow> bool" where
  "is_dir fs p = (case stat fs p of Inr Dir \<Rightarrow> True | _ \<Rightarrow> False)"

definition is_file :: "fs \<Rightarrow> path \<Rightarrow> bool" where
  "is_file fs p = (case stat fs p of Inr (File d x) \<Rightarrow> True | _ \<Rightarrow> False)"

text \<open>\<^verbatim>\<open>path.stat().st_size\<close> of a regular file.\<close>

definition st_size :: "fs \<Rightarrow> path \<Rightarrow> nat" where
  "st_size fs p = (case stat fs p of Inr (File d x) \<Rightarrow> length d | _ \<Rightarrow> 0)"

text \<open>\<^verbatim>\<open>os.access(path, os.X_OK)\<close>; a directory can be searched.\<close>

definition access_X_OK :: "fs \<Rightarrow> path \<Rightarrow> bool" where
  "access_X_OK fs p = (case stat fs p of Inr (File d x) \<Rightarrow> x | Inr Dir \<Rightarrow> True | _ \<Rightarrow> False)"

text \<open>\<^verbatim>\<open>path.iterdir()\<close>: the entries of a directory, each as \<^verbatim>\<open>path / name\<close>.\<close>

definition iterdir :: "fs \<Rightarrow> path \<Rightarrow> os_error + path list" where
  "iterdir fs p =
     (case walk True SYMLOOP_MAX fs [] p of
        Inl e \<Rightarrow> Inl e
      | Inr rp \<Rightarrow>
          (case node_at fs rp of
             None \<Rightarrow> Inl FileNotFoundError
           | Some Dir \<Rightarrow>
               Inr (map (\<lambda>q. p @ [last q]) (filter (\<lambda>q. q \<noteq> [] \<and> butlast q = rp) (map fst fs)))
           | Some other \<Rightarrow> Inl NotADirectoryError))"

text \<open>\<^verbatim>\<open>os.mkdir(path)\<close>: the parent is resolved, the last component is not followed.\<close>

definition os_mkdir :: "fs \<Rightarrow> path \<Rightarrow> os_error + fs" where
  "os_mkdir fs p =
     (if p = [] \<or> last p = ''..'' then Inl FileExistsError
      else case walk True SYMLOOP_MAX fs [] (butlast p) of
             Inl e \<Rightarrow> Inl e
           | Inr rpar \<Rightarrow>
               (case node_at fs rpar of
                  None \<Rightarrow> Inl FileNotFoundError
                | Some Dir \<Rightarrow>
                    if map_of fs (rpar @ [last p]) \<noteq> None then Inl FileExistsError
                    else Inr ((rpar @ [last p], Dir) # fs)
                | Some other \<Rightarrow> Inl NotADirectoryError))"

text \<open>
  \<^verbatim>\<open>path.mkdir(parents=True, exist_ok=exist_ok)\<close> of pathlib: \<^verbatim>\<open>os.mkdir\<close>; on
  \<^verbatim>\<open>FileNotFoundError\<close> the parent is made first (with \<^verbatim>\<open>exist_ok=True\<close>) and
  \<^verbatim>\<open>os.mkdir\<close> is tried again; any other error is raised unless \<^verbatim>\<open>exist_ok\<close> holds
  and the path is a directory.
\<close>

function Path_mkdir :: "fs \<Rightarrow> path \<Rightarrow> bool \<Rightarrow> os_error + fs" where
  "Path_mkdir fs p exist_ok =
     (case os_mkdir fs p of
        Inr fs1 \<Rightarrow> Inr fs1
      | Inl e \<Rightarrow>
          if e = FileNotFoundError then
            (if p = [] then Inl e
             else case Path_mkdir fs (butlast p) True of
                    Inl e1 \<Rightarrow> Inl e1
                  | Inr fs1 \<Rightarrow>
                      (case os_mkdir fs1 p of
                         Inr fs2 \<Rightarrow> Inr fs2
                       | Inl e2 \<Rightarrow>
                           if e2 = FileNotFoundError \<or> \<not> exist_ok \<or> \<not> is_dir fs1 p then Inl e2
                           else Inr fs1))
          else if \<not> exist_ok \<or> \<not> is_dir fs p then Inl e
          else Inr fs)"
  by pat_completeness auto
termination
  by (relation "measure (\<lambda>(fs, p, e). length p)") auto

declare Path_mkdir.simps [simp del]

text \<open>
  What the operating system does to one write, decided outside the server: the open
  fails, or the write fails after some bytes (a full disk, a quota, an I/O error).
\<close>

datatype write_fault = OpenFails | WriteFails nat

text \<open>
  \<^verbatim>\<open>with open(path, 'wb') as f: f.write(content)\<close>: the path is resolved (a final
  symbolic link is followed, so what is opened is not a link), the file is created or
  truncated, the bytes are written.
\<close>

definition write_file :: "fs \<Rightarrow> path \<Rightarrow> bytes \<Rightarrow> write_fault option \<Rightarrow> (os_error + unit) \<times> fs" where
  "write_file fs p content fault =
     (if fault = Some OpenFails then (Inl OSError, fs)
      else case walk True SYMLOOP_MAX fs [] p of
             Inl e \<Rightarrow> (Inl e, fs)
           | Inr rp \<Rightarrow>
               if node_at fs rp = Some Dir then (Inl IsADirectoryError, fs)
               else if (case node_at fs rp of Some (Symlink t) \<Rightarrow> True | _ \<Rightarrow> False)
               then (Inl OSError, fs)
               else if node_at fs (butlast rp) \<noteq> Some Dir then (Inl FileNotFoundError, fs)
               else
                 let x = (case node_at fs rp of Some (File d x) \<Rightarrow> x | _ \<Rightarrow> False);
                     others = filter (\<lambda>(q, n). q \<noteq> rp) fs
                 in (case fault of
                       Some (WriteFails k) \<Rightarrow> (Inl OSError, (rp, File (take k content) x) # others)
                     | _ \<Rightarrow> (Inr (), (rp, File content x) # others)))"

datatype read_error = UnicodeDecodeError | ReadError os_error

text \<open>\<^verbatim>\<open>with open(path, 'r', encoding='utf-8') as f: f.read()\<close>\<close>

definition read_text :: "fs \<Rightarrow> path \<Rightarrow> read_error + unicode" where
  "read_text fs p =
     (case stat fs p of
        Inl e \<Rightarrow> Inl (ReadError e)
      | Inr (File d x) \<Rightarrow>
          (case decode_utf8 d of
             None \<Rightarrow> Inl UnicodeDecodeError
           | Some s \<Rightarrow> Inr (universal_newlines s))
      | Inr other \<Rightarrow> Inl (ReadError IsADirectoryError))"

text \<open>
  \<^verbatim>\<open>shutil.rmtree(path)\<close>: refuses a symbolic link and anything that is not a
  directory; removes the directory and everything below it (links inside it are
  removed, not followed).
\<close>

definition rmtree :: "fs \<Rightarrow> path \<Rightarrow> os_error + fs" where
  "rmtree fs p =
     (if p = [] \<or> last p = ''..'' then Inl OSError
      else case walk True SYMLOOP_MAX fs [] (butlast p) of
             Inl e \<Rightarrow> Inl e
           | Inr rpar \<Rightarrow>
               if node_at fs rpar \<noteq> Some Dir then Inl NotADirectoryError
               else (case map_of fs (rpar @ [last p]) of
                       None \<Rightarrow> Inl FileNotFoundError
                     | Some Dir \<Rightarrow> Inr (filter (\<lambda>(q, n). \<not> under (rpar @ [last p]) q) fs)
                     | Some (File d x) \<Rightarrow> Inl NotADirectoryError
                     | Some (Symlink t) \<Rightarrow> Inl OSError))"

text \<open>\<^verbatim>\<open>shutil.rmtree(path, ignore_errors=True)\<close>\<close>

definition rmtree_ignore_errors :: "fs \<Rightarrow> path \<Rightarrow> fs" where
  "rmtree_ignore_errors fs p = (case rmtree fs p of Inl e \<Rightarrow> fs | Inr fs1 \<Rightarrow> fs1)"

section \<open>The validators of \<^verbatim>\<open>server/app.py\<close>\<close>

text \<open>
  A pydantic validator returns its value or raises \<^verbatim>\<open>ValueError\<close> with a message
  (\<open>Inl\<close> the message).
\<close>

definition validate_unique_id :: "string \<Rightarrow> string + string" where
  "validate_unique_id v =
     (case UUID v of
        None \<Rightarrow> Inl ''unique_id must be a valid UUID''
      | Some u \<Rightarrow> Inr v)"

definition validate_binary :: "string \<Rightarrow> string + string" where
  "validate_binary v =
     (if \<not> re_match_class (ascii_letters_digits @ ''_-'') v
      then Inl ''binary name contains invalid characters''
      else Inr v)"

text \<open>The characters \<^verbatim>\<open>; & | ` $ \n \r\<close> (the backquote is code point 0x60).\<close>

definition forbidden_chars :: "char list" where
  "forbidden_chars =
     [CHR '';'', CHR ''&'', CHR ''|'', CHR 0x60, CHR ''$'', CHR 0x0A, CHR 0x0D]"

fun validate_args_loop :: "string list \<Rightarrow> string list \<Rightarrow> string + string list" where
  "validate_args_loop v [] = Inr v"
| "validate_args_loop v (arg # rest) =
     (if list_ex (\<lambda>char. char \<in> set arg) forbidden_chars
      then Inl (''argument contains forbidden characters: '' @ arg)
      else if startswith arg ''/'' \<or> contains ''..'' arg
      then Inl (''argument contains forbidden path traversal: '' @ arg)
      else validate_args_loop v rest)"

definition validate_args :: "string list \<Rightarrow> string + string list" where
  "validate_args v = validate_args_loop v v"

definition validate_filename :: "string \<Rightarrow> bool" where
  "validate_filename filename =
     (if \<not> endswith (lower filename) ALLOWED_EXTENSION then False
      else if contains ''/'' filename \<or> contains [CHR 0x5C] filename \<or> contains ''..'' filename
      then False
      else if \<not> re_match_class (ascii_letters_digits @ ''_.-'') filename then False
      else True)"

definition validate_file_content :: "bytes \<Rightarrow> bool" where
  "validate_file_content content = (case decode_utf8 content of None \<Rightarrow> False | Some s \<Rightarrow> True)"

section \<open>Requests, responses and failures\<close>

record CommandRequest =
  req_unique_id :: string
  req_binary :: string
  req_args :: "string list"

text \<open>
  A request fails with an \<^verbatim>\<open>HTTPException\<close> (status code and detail), or, when
  pydantic refuses the body of \<^verbatim>\<open>/execute\<close>, with the validation error FastAPI
  answers with status 422 (the messages of the validators that raised).
\<close>

datatype failure = HTTPException nat string | RequestValidationError "string list"

record upload_response =
  up_unique_id :: string
  up_filename :: string
  up_size :: nat
  up_path :: string

record execute_response =
  ex_unique_id :: string
  ex_binary :: string
  ex_returncode :: int
  ex_stdout :: string
  ex_stderr :: string

record file_entry =
  fe_name :: string
  fe_size :: "nat option"
  fe_type :: string

record list_response =
  ls_unique_id :: string
  ls_files :: "file_entry list"

record download_response =
  dl_unique_id :: string
  dl_filename :: string
  dl_size :: nat
  dl_content :: unicode

record cleanup_response =
  cl_message :: string
  cl_unique_id :: string

section \<open>Processes\<close>

text \<open>The keyword arguments of one \<^verbatim>\<open>subprocess.run\<close> call.\<close>

record run_kwargs =
  kw_args :: "string list"
  kw_cwd :: string
  kw_capture_output :: bool
  kw_timeout :: nat
  kw_shell :: bool
  kw_text :: bool
  kw_env :: "(string \<times> string) list option"

text \<open>What the operating system is asked to start.\<close>

record launch =
  argv :: "string list"
  cwd :: string
  envp :: "(string \<times> string) list"

text \<open>
  What a started program does is decided outside the server. For a launch, a budget in
  seconds and the files it finds, the operating system answers with: how the child
  ended (it exited with a code and its two outputs; or the budget ran out, with the
  output so far; or it could not be started), the files it left, the child's process id
  and the processes of the child's tree that are alive at that moment.
\<close>

datatype completion = Exited int string string | Expired string string | LaunchFailed

record run_result =
  completion :: completion
  files_after :: fs
  child :: nat
  tree :: "nat list"

type_synonym os_exec = "launch \<Rightarrow> nat \<Rightarrow> fs \<Rightarrow> run_result"

text \<open>
  The state around the server: the files, the environment of the server process
  (\<^verbatim>\<open>os.environ\<close>), every launch so far, and the processes started by launches that
  are still alive.
\<close>

record world =
  files :: fs
  environ :: "(string \<times> string) list"
  spawned :: "launch list"
  procs :: "nat list"

datatype run_outcome =
  CompletedProcess int string string | TimeoutExpired string string | OtherException

text \<open>
  \<^verbatim>\<open>subprocess.run(args, cwd=..., capture_output=True, timeout=..., shell=...,
  text=True, env=...)\<close>. Without a shell the argument list is executed as it is; with
  one it is handed to \<^verbatim>\<open>/bin/sh -c\<close>. A given \<^verbatim>\<open>env\<close> is the whole environment of the
  child; without one the child inherits the server's. When the budget runs out the
  child, and only the child, is killed and waited for, and \<^verbatim>\<open>TimeoutExpired\<close> carries
  the output read so far. A child that exited has been waited for as well.
\<close>

definition subprocess_run :: "os_exec \<Rightarrow> run_kwargs \<Rightarrow> world \<Rightarrow> run_outcome \<times> world" where
  "subprocess_run os kw w =
     (let l = \<lparr>argv = (if kw_shell kw then [''/bin/sh'', ''-c''] @ kw_args kw else kw_args kw),
               cwd = kw_cwd kw,
               envp = (case kw_env kw of None \<Rightarrow> environ w | Some e \<Rightarrow> e)\<rparr>;
          r = os l (kw_timeout kw) (files w);
          w1 = w\<lparr>files := files_after r,
                 spawned := spawned w @ [l],
                 procs := procs w @ filter (\<lambda>p. p \<noteq> child r) (tree r)\<rparr>
      in case completion r of
           Exited rc out err \<Rightarrow> (CompletedProcess rc out err, w1)
         | Expired out err \<Rightarrow> (TimeoutExpired out err, w1)
         | LaunchFailed \<Rightarrow> (OtherException, w\<lparr>spawned := spawned w @ [l]\<rparr>))"

section \<open>The operations of \<^verbatim>\<open>server/app.py\<close>\<close>

text \<open>
  \<^verbatim>\<open>upload_file\<close>. The sixteen random bytes of \<^verbatim>\<open>uuid.uuid4()\<close> and what the
  operating system does to the write are inputs. An upload without a file name fails
  like one with the empty name. An exception of \<^verbatim>\<open>mkdir\<close> other than
  \<^verbatim>\<open>FileExistsError\<close> is not caught: FastAPI answers it with status 500.
\<close>

definition upload_file ::
  "128 word \<Rightarrow> write_fault option \<Rightarrow> string \<Rightarrow> bytes \<Rightarrow> world \<Rightarrow> (failure + upload_response) \<times> world"
where
  "upload_file random fault filename content w =
     (if filename = [] \<or> \<not> validate_filename filename then
        (Inl (HTTPException 400
           ''Invalid filename. Must be alphanumeric with .cha extension and no path separators''), w)
      else if length content > MAX_FILE_SIZE then
        (Inl (HTTPException 400
           (''File too large. Max size: '' @ str_nat MAX_FILE_SIZE @ '' bytes'')), w)
      else if \<not> validate_file_content content then
        (Inl (HTTPException 400 ''File content validation failed. Must be valid UTF-8 text.''), w)
      else
        let unique_id = str_UUID (uuid4 random);
            work_path = path_div WORK_DIR unique_id
        in case Path_mkdir (files w) work_path False of
             Inl e \<Rightarrow>
               if e = FileExistsError
               then (Inl (HTTPException 500 ''Failed to create unique workspace''), w)
               else (Inl (HTTPException 500 ''Internal Server Error''), w)
           | Inr fs1 \<Rightarrow>
               let file_path = path_div work_path filename
               in (case write_file fs1 file_path content fault of
                     (Inl e, fs2) \<Rightarrow>
                       (Inl (HTTPException 500 ''Failed to save file''),
                        w\<lparr>files := rmtree_ignore_errors fs2 work_path\<rparr>)
                   | (Inr u, fs2) \<Rightarrow>
                       (Inr \<lparr>up_unique_id = unique_id,
                             up_filename = filename,
                             up_size = length content,
                             up_path = str_path file_path\<rparr>,
                        w\<lparr>files := fs2\<rparr>)))"

text \<open>
  The containment check the server makes three times:
  \<^verbatim>\<open>str(path.resolve()).startswith(str(directory.resolve()))\<close>. \<open>None\<close> where
  \<^verbatim>\<open>resolve\<close> raises.
\<close>

definition resolved_startswith :: "fs \<Rightarrow> path \<Rightarrow> path \<Rightarrow> bool option" where
  "resolved_startswith fs p directory =
     (case resolve fs p of
        Inl e \<Rightarrow> None
      | Inr rp \<Rightarrow>
          (case resolve fs directory of
             Inl e \<Rightarrow> None
           | Inr rd \<Rightarrow> Some (startswith (str_path rp) (str_path rd))))"

text \<open>
  \<^verbatim>\<open>execute_command\<close>, the body of the endpoint. The \<^verbatim>\<open>HTTPException\<close> (403,
  access denied) raised inside the \<^verbatim>\<open>try\<close> is caught by its own
  \<^verbatim>\<open>except Exception\<close> and raised again with the other detail.
\<close>

definition execute_command ::
  "os_exec \<Rightarrow> CommandRequest \<Rightarrow> world \<Rightarrow> (failure + execute_response) \<times> world"
where
  "execute_command os request w =
     (let work_path = path_div WORK_DIR (req_unique_id request);
          binary_name = basename (req_binary request);
          binary_path = path_div BIN_DIR binary_name
      in if \<not> path_exists (files w) work_path \<or> \<not> is_dir (files w) work_path then
           (Inl (HTTPException 404 ''Workspace not found''), w)
         else if \<not> path_exists (files w) binary_path then
           (Inl (HTTPException 400
              (''Binary '' @ [CHR 0x27] @ binary_name @ [CHR 0x27] @ '' not found'')), w)
         else if \<not> access_X_OK (files w) binary_path then
           (Inl (HTTPException 400
              (''Binary '' @ [CHR 0x27] @ binary_name @ [CHR 0x27] @ '' is not executable'')), w)
         else if resolved_startswith (files w) binary_path BIN_DIR \<noteq> Some True then
           (Inl (HTTPException 403 ''Failed to resolve binary path''), w)
         else
           (case subprocess_run os
                   \<lparr>kw_args = str_path binary_path # req_args request,
                    kw_cwd = str_path work_path,
                    kw_capture_output = True,
                    kw_timeout = COMMAND_TIMEOUT,
                    kw_shell = False,
                    kw_text = True,
                    kw_env = Some [(''PATH'', str_path BIN_DIR),
                                   (''HOME'', str_path work_path),
                                   (''LANG'', ''C.UTF-8'')]\<rparr> w of
              (CompletedProcess rc out err, w1) \<Rightarrow>
                (Inr \<lparr>ex_unique_id = req_unique_id request,
                      ex_binary = binary_name,
                      ex_returncode = rc,
                      ex_stdout = out,
                      ex_stderr = err\<rparr>, w1)
            | (TimeoutExpired out err, w1) \<Rightarrow>
                (Inl (HTTPException 408
                   (''Command timed out after '' @ str_nat COMMAND_TIMEOUT @ '' seconds'')), w1)
            | (OtherException, w1) \<Rightarrow>
                (Inl (HTTPException 500 ''Command execution failed''), w1)))"

text \<open>
  The endpoint \<^verbatim>\<open>/execute\<close>: pydantic builds the \<^verbatim>\<open>CommandRequest\<close> and runs the
  three validators; when one raises, FastAPI answers and the body does not run.
\<close>

definition validation_errors :: "CommandRequest \<Rightarrow> string list" where
  "validation_errors request =
     (case validate_unique_id (req_unique_id request) of Inl m \<Rightarrow> [m] | Inr v \<Rightarrow> [])
     @ (case validate_binary (req_binary request) of Inl m \<Rightarrow> [m] | Inr v \<Rightarrow> [])
     @ (case validate_args (req_args request) of Inl m \<Rightarrow> [m] | Inr v \<Rightarrow> [])"

definition execute ::
  "os_exec \<Rightarrow> CommandRequest \<Rightarrow> world \<Rightarrow> (failure + execute_response) \<times> world"
where
  "execute os request w =
     (if validation_errors request \<noteq> []
      then (Inl (RequestValidationError (validation_errors request)), w)
      else execute_command os request w)"

text \<open>\<^verbatim>\<open>list_files\<close>\<close>

definition list_files :: "string \<Rightarrow> world \<Rightarrow> failure + list_response" where
  "list_files unique_id w =
     (if UUID unique_id = None then Inl (HTTPException 400 ''Invalid unique_id format'')
      else
        let work_path = path_div WORK_DIR unique_id
        in if \<not> path_exists (files w) work_path then
             Inl (HTTPException 404 ''Workspace not found'')
           else
             (case iterdir (files w) work_path of
                Inl e \<Rightarrow> Inl (HTTPException 500 ''Failed to list files'')
              | Inr items \<Rightarrow>
                  Inr \<lparr>ls_unique_id = unique_id,
                       ls_files =
                         map (\<lambda>item.
                                \<lparr>fe_name = last item,
                                 fe_size = (if is_file (files w) item
                                            then Some (st_size (files w) item) else None),
                                 fe_type = (if is_file (files w) item
                                            then ''file'' else ''directory'')\<rparr>)
                             items\<rparr>))"

text \<open>
  \<^verbatim>\<open>download_file\<close>. As in \<^verbatim>\<open>execute_command\<close> the 403 raised inside the
  \<^verbatim>\<open>try\<close> is caught and raised again with the other detail. An
  \<^verbatim>\<open>UnicodeEncodeError\<close> of \<^verbatim>\<open>content.encode\<close> would be caught by the last handler.
\<close>

definition download_file :: "string \<Rightarrow> string \<Rightarrow> world \<Rightarrow> failure + download_response" where
  "download_file unique_id filename w =
     (if UUID unique_id = None then Inl (HTTPException 400 ''Invalid unique_id format'')
      else if contains ''/'' filename \<or> contains [CHR 0x5C] filename \<or> contains ''..'' filename
      then Inl (HTTPException 400 ''Invalid filename'')
      else if \<not> re_match_class (ascii_letters_digits @ ''_.-'') filename
      then Inl (HTTPException 400 ''Filename contains invalid characters'')
      else
        let work_path = path_div WORK_DIR unique_id;
            file_path = path_div work_path filename
        in if \<not> path_exists (files w) work_path then
             Inl (HTTPException 404 ''Workspace not found'')
           else if \<not> path_exists (files w) file_path then
             Inl (HTTPException 404 ''File not found'')
           else if \<not> is_file (files w) file_path then
             Inl (HTTPException 400 ''Not a file'')
           else if resolved_startswith (files w) file_path work_path \<noteq> Some True then
             Inl (HTTPException 403 ''Failed to resolve file path'')
           else
             (case read_text (files w) file_path of
                Inl e \<Rightarrow>
                  if e = UnicodeDecodeError
                  then Inl (HTTPException 400 ''File is not valid UTF-8 text'')
                  else Inl (HTTPException 500 ''Failed to read file'')
              | Inr content \<Rightarrow>
                  (case encode_utf8 content of
                     None \<Rightarrow> Inl (HTTPException 500 ''Failed to read file'')
                   | Some b \<Rightarrow>
                       Inr \<lparr>dl_unique_id = unique_id,
                            dl_filename = filename,
                            dl_size = length b,
                            dl_content = content\<rparr>)))"

text \<open>
  \<^verbatim>\<open>cleanup_workspace\<close>. The 403 raised inside the \<^verbatim>\<open>try\<close> is caught by its
  \<^verbatim>\<open>except Exception\<close> and becomes the 500 of the handler.
\<close>

definition cleanup_workspace :: "string \<Rightarrow> world \<Rightarrow> (failure + cleanup_response) \<times> world" where
  "cleanup_workspace unique_id w =
     (if UUID unique_id = None then (Inl (HTTPException 400 ''Invalid unique_id format''), w)
      else
        let work_path = path_div WORK_DIR unique_id
        in if \<not> path_exists (files w) work_path then
             (Inl (HTTPException 404 ''Workspace not found''), w)
           else if resolved_startswith (files w) work_path WORK_DIR \<noteq> Some True then
             (Inl (HTTPException 500 ''Failed to delete workspace''), w)
           else
             (case rmtree (files w) work_path of
                Inl e \<Rightarrow> (Inl (HTTPException 500 ''Failed to delete workspace''), w)
              | Inr fs1 \<Rightarrow>
                  (Inr \<lparr>cl_message = ''Workspace deleted'', cl_unique_id = unique_id\<rparr>,
                   w\<lparr>files := fs1\<rparr>)))"

section \<open>Definitions the properties are stated with\<close>

text \<open>
  The launch \<^verbatim>\<open>execute_command\<close> asks for, written out from the request alone.
\<close>

definition the_launch :: "CommandRequest \<Rightarrow> launch" where
  "the_launch request =
     \<lparr>argv = str_path (path_div BIN_DIR (basename (req_binary request))) # req_args request,
      cwd = str_path (path_div WORK_DIR (req_unique_id request)),
      envp = [(''PATH'', ''/webclan/unix/bin''),
              (''HOME'', str_path (path_div WORK_DIR (req_unique_id request))),
              (''LANG'', ''C.UTF-8'')]\<rparr>"

text \<open>
  The canonical text of a UUID, as \<^verbatim>\<open>str(uuid)\<close> prints it: five groups of 8, 4, 4, 4
  and 12 lower-case hexadecimal digits, with hyphens between them.
\<close>

definition is_hex :: "char \<Rightarrow> bool" where
  "is_hex c = (c \<in> set ''0123456789abcdef'')"

definition lower_hex :: "string \<Rightarrow> bool" where
  "lower_hex s = list_all is_hex s"

definition canonical_uuid :: "string \<Rightarrow> bool" where
  "canonical_uuid s =
     (let a = take 8 s; b = take 4 (drop 9 s); c = take 4 (drop 14 s);
          d = take 4 (drop 19 s); e = drop 24 s
      in length s = 36 \<and> s = a @ ''-'' @ b @ ''-'' @ c @ ''-'' @ d @ ''-'' @ e
         \<and> lower_hex (a @ b @ c @ d @ e))"

text \<open>
  A small installation the properties are tried on: the two directories, one
  executable \<^verbatim>\<open>freq\<close>, and one workspace that holds \<^verbatim>\<open>chip.cha\<close> with the content
  \<^verbatim>\<open>a b c\<close>.
\<close>

definition demo_id :: string where
  "demo_id = ''01234567-89ab-4def-8123-456789abcdef''"

definition base_files :: fs where
  "base_files =
     [([''webclan''], Dir),
      ([''webclan'', ''work''], Dir),
      ([''webclan'', ''unix''], Dir),
      ([''webclan'', ''unix'', ''bin''], Dir),
      ([''webclan'', ''unix'', ''bin'', ''freq''], File [] True)]"

definition demo_files :: fs where
  "demo_files =
     ([''webclan'', ''work'', demo_id, ''chip.cha''], File [0x61, 0x20, 0x62, 0x20, 0x63] False)
     # ([''webclan'', ''work'', demo_id], Dir)
     # base_files"

definition demo_world :: world where
  "demo_world =
     \<lparr>files = demo_files, environ = [(''SECRET'', ''hunter2'')], spawned = [], procs = []\<rparr>"

definition demo_request :: CommandRequest where
  "demo_request = \<lparr>req_unique_id = demo_id, req_binary = ''freq'', req_args = [''chip.cha'']\<rparr>"

text \<open>A program that prints its arguments and exits with code 0.\<close>

definition echo_exec :: os_exec where
  "echo_exec l budget fs =
     \<lparr>completion = Exited 0 (concat (tl (argv l))) [], files_after = fs, child = 100, tree = []\<rparr>"

text \<open>
  A program that starts a process of its own (process 101) and is still asleep when
  the budget runs out.
\<close>

definition sleep_exec :: os_exec where
  "sleep_exec l budget fs =
     \<lparr>completion = Expired ''zz'' [], files_after = fs, child = 100, tree = [100, 101]\<rparr>"

text \<open>The installation before the upload, and the random bytes that give \<open>demo_id\<close>.\<close>

definition base_world :: world where
  "base_world =
     \<lparr>files = base_files, environ = [(''SECRET'', ''hunter2'')], spawned = [], procs = []\<rparr>"

definition demo_random :: "128 word" where
  "demo_random = 0x0123456789abcdef0123456789abcdef"

text \<open>The keyword arguments \<^verbatim>\<open>execute_command\<close> calls \<^verbatim>\<open>subprocess.run\<close> with.\<close>

definition the_kwargs :: "CommandRequest \<Rightarrow> run_kwargs" where
  "the_kwargs request =
     \<lparr>kw_args = str_path (path_div BIN_DIR (basename (req_binary request))) # req_args request,
      kw_cwd = str_path (path_div WORK_DIR (req_unique_id request)),
      kw_capture_output = True,
      kw_timeout = COMMAND_TIMEOUT,
      kw_shell = False,
      kw_text = True,
      kw_env = Some [(''PATH'', str_path BIN_DIR),
                     (''HOME'', str_path (path_div WORK_DIR (req_unique_id request))),
                     (''LANG'', ''C.UTF-8'')]\<rparr>"

text \<open>
  The example installation with a symbolic link planted in the binaries directory:
  \<^verbatim>\<open>/webclan/unix/bin/tool\<close> points to an executable in the sibling directory
  \<^verbatim>\<open>/webclan/unix/bin-old\<close>.
\<close>

definition escape_world :: world where
  "escape_world =
     \<lparr>files = ([''webclan'', ''unix'', ''bin'', ''tool''], Symlink ''/webclan/unix/bin-old/tool'')
              # ([''webclan'', ''unix'', ''bin-old''], Dir)
              # ([''webclan'', ''unix'', ''bin-old'', ''tool''], File [] True)
              # demo_files,
      environ = [], spawned = [], procs = []\<rparr>"

definition escape_request :: CommandRequest where
  "escape_request = \<lparr>req_unique_id = demo_id, req_binary = ''tool'', req_args = []\<rparr>"


text \<open>
  Two relations between file systems, for the lemmas about path resolution. The first
  holds when nodes are only added or files rewritten: links and directories stay, a
  file stays a file, and what is new is not a link. The second holds when nodes are
  only removed.
\<close>

definition grows :: "fs \<Rightarrow> fs \<Rightarrow> bool" where
  "grows fs fs1 =
     (\<forall>q. case map_of fs q of
            Some (Symlink t) \<Rightarrow> map_of fs1 q = Some (Symlink t)
          | Some Dir \<Rightarrow> map_of fs1 q = Some Dir
          | Some (File d x) \<Rightarrow> (\<exists>d1 x1. map_of fs1 q = Some (File d1 x1))
          | None \<Rightarrow> (\<forall>t. map_of fs1 q \<noteq> Some (Symlink t)))"

definition shrinks :: "fs \<Rightarrow> fs \<Rightarrow> bool" where
  "shrinks fs fs1 = (\<forall>q. map_of fs1 q = None \<or> map_of fs1 q = map_of fs q)"

text \<open>A well-formed file system: every node lies in a directory.\<close>

definition wf_fs :: "fs \<Rightarrow> bool" where
  "wf_fs fs = list_all (\<lambda>(q, n). q \<noteq> [] \<and> node_at fs (butlast q) = Some Dir) fs"

section \<open>Argument validation\<close>

lemma validate_args_loop_rejects:
  "arg \<in> set rest \<Longrightarrow> c \<in> set arg \<Longrightarrow> c \<in> set forbidden_chars
   \<Longrightarrow> \<exists>m. validate_args_loop v rest = Inl m"
  by (induction rest) (auto simp: list_ex_iff)

text \<open>
  Claim C5. An argument list in which some element holds one of the characters
  \<^verbatim>\<open>; & | ` $\<close>, newline or carriage return is rejected as a whole, whatever the other
  elements, the identifier and the binary name are: \<^verbatim>\<open>validate_args\<close> raises, and the
  endpoint answers with the validation error and leaves the state as it was.
\<close>

theorem forbidden_character_rejects_list:
  assumes "arg \<in> set v" and "c \<in> set arg"
    and "c \<in> {CHR '';'', CHR ''&'', CHR ''|'', CHR 0x60, CHR ''$'', CHR 0x0A, CHR 0x0D}"
  shows "(\<exists>m. validate_args v = Inl m) \<and>
         (\<exists>ms. ms \<noteq> [] \<and>
            execute os \<lparr>req_unique_id = u, req_binary = b, req_args = v\<rparr> w
              = (Inl (RequestValidationError ms), w))"
proof -
  from assms(3) have "c \<in> set forbidden_chars"
    by (simp add: forbidden_chars_def)
  with assms(1,2) obtain m where m: "validate_args v = Inl m"
    unfolding validate_args_def using validate_args_loop_rejects by blast
  then have "validation_errors \<lparr>req_unique_id = u, req_binary = b, req_args = v\<rparr> \<noteq> []"
    by (simp add: validation_errors_def)
  then show ?thesis
    using m by (auto simp: execute_def)
qed

theorem forbidden_character_rejects_list_witness:
  "''a;b'' \<in> set [''chip.cha'', ''a;b''] \<and> CHR '';'' \<in> set ''a;b''
   \<and> (\<exists>m. validate_args [''chip.cha'', ''a;b''] = Inl m)"
  using forbidden_character_rejects_list [of "''a;b''" "[''chip.cha'', ''a;b'']" "CHR '';''"]
  by simp

section \<open>Strings and paths\<close>

lemma contains_char: "contains [c] s \<longleftrightarrow> c \<in> set s"
  by (induction s) auto

lemma split_slash_noslash: "CHR ''/'' \<notin> set s \<Longrightarrow> split_slash s = [s]"
  by (induction s) auto

lemma Path_parts_single:
  "CHR ''/'' \<notin> set s \<Longrightarrow> s \<noteq> [] \<Longrightarrow> s \<noteq> ''.'' \<Longrightarrow> Path_parts s = [s]"
  by (simp add: Path_parts_def split_slash_noslash)

lemma path_div_single:
  "CHR ''/'' \<notin> set s \<Longrightarrow> s \<noteq> [] \<Longrightarrow> s \<noteq> ''.'' \<Longrightarrow> path_div p s = p @ [s]"
  by (cases s) (auto simp: path_div_def Path_parts_single)

lemma str_path_snoc: "p \<noteq> [] \<Longrightarrow> str_path (p @ [s]) = str_path p @ ''/'' @ s"
  by (simp add: str_path_def)


lemma startswith_length: "startswith s p \<Longrightarrow> length p \<le> length s"
  by (induction s p rule: startswith.induct) auto

lemma endswith_length: "endswith s p \<Longrightarrow> length p \<le> length s"
  using startswith_length [of "rev s" "rev p"] by (simp add: endswith_def)

lemma validate_filename_single:
  assumes "validate_filename filename"
  shows "CHR ''/'' \<notin> set filename \<and> filename \<noteq> [] \<and> filename \<noteq> ''.''"
proof -
  from assms have e: "endswith (lower filename) ALLOWED_EXTENSION"
    and c: "\<not> contains ''/'' filename"
    by (auto simp: validate_filename_def split: if_splits)
  from endswith_length [OF e] have "4 \<le> length filename"
    by (simp add: lower_def ALLOWED_EXTENSION_def)
  moreover from c have "CHR ''/'' \<notin> set filename"
    by (simp add: contains_char)
  ultimately show ?thesis by auto
qed

section \<open>The identifiers \<^verbatim>\<open>uuid.UUID\<close> accepts\<close>

lemma lower_hex_append [simp]: "lower_hex (a @ b) \<longleftrightarrow> lower_hex a \<and> lower_hex b"
  by (simp add: lower_hex_def)

lemma lower_hex_mem: "lower_hex s \<Longrightarrow> c \<in> set s \<Longrightarrow> is_hex c"
  by (simp add: lower_hex_def list_all_iff)

lemma startswith_hd: "startswith s (p # ps) \<Longrightarrow> s \<noteq> [] \<and> hd s = p"
  by (cases s) auto

lemma remove_sub_absent: "c \<notin> set s \<Longrightarrow> remove_sub (c # old) s = s"
  by (induction s) auto

lemma remove_sub_char: "remove_sub [c] s = filter (\<lambda>x. x \<noteq> c) s"
  by (induction s) auto

lemma strip_id: "s \<noteq> [] \<Longrightarrow> hd s \<notin> set chars \<Longrightarrow> last s \<notin> set chars \<Longrightarrow> strip chars s = s"
proof -
  assume a: "s \<noteq> []" "hd s \<notin> set chars" "last s \<notin> set chars"
  then have 1: "dropWhile (\<lambda>c. c \<in> set chars) s = s" by (cases s) auto
  from a have "hd (rev s) \<notin> set chars" by (simp add: hd_rev)
  with a have 2: "dropWhile (\<lambda>c. c \<in> set chars) (rev s) = rev s" by (cases "rev s") auto
  show ?thesis by (simp add: strip_def 1 2)
qed

lemma contains_mem: "contains (c # cs) s \<Longrightarrow> c \<in> set s"
  by (induction s) (auto dest: startswith_hd)

lemma hex_is_digit16: "is_hex c \<Longrightarrow> is_digit16 c"
  by (auto simp: is_hex_def is_digit16_def digit_value_def)

lemma hex_digit_value: "is_hex c \<Longrightarrow> \<exists>d. digit_value c = Some d \<and> d < 16"
  by (auto simp: is_hex_def digit_value_def)

lemma hex_ascii: "is_hex c \<Longrightarrow> (of_char c :: nat) < 128"
  by (auto simp: is_hex_def)

lemma hex_plain: "is_hex c \<Longrightarrow>
    \<not> isspace c \<and> c \<noteq> CHR ''+'' \<and> c \<noteq> CHR ''-'' \<and> c \<noteq> CHR ''_'' \<and> c \<noteq> CHR ''x'' \<and> c \<noteq> CHR ''X''
    \<and> c \<noteq> CHR ''u'' \<and> c \<noteq> CHR ''{'' \<and> c \<noteq> CHR ''}''"
  by (auto simp: is_hex_def isspace_def)

lemma digits16_value_bound_aux:
  "lower_hex h \<Longrightarrow> foldl (\<lambda>a c. 16 * a + the (digit_value c)) v h < (v + 1) * 16 ^ length h"
proof (induction h arbitrary: v)
  case Nil then show ?case by simp
next
  case (Cons c h)
  then have "is_hex c" and h: "lower_hex h" by (simp_all add: lower_hex_def)
  then obtain d where d: "digit_value c = Some d" "d < 16" using hex_digit_value by blast
  have "foldl (\<lambda>a c. 16 * a + the (digit_value c)) (16 * v + d) h < (16 * v + d + 1) * 16 ^ length h"
    using Cons.IH [OF h] .
  also have "\<dots> \<le> (16 * (v + 1)) * 16 ^ length h"
    using d(2) by (intro mult_right_mono) auto
  finally show ?case using d by (simp add: algebra_simps)
qed

lemma digits16_value_bound: "lower_hex h \<Longrightarrow> digits16_value h < 16 ^ length h"
  using digits16_value_bound_aux [of h 0] by (simp add: digits16_value_def)

lemma lower_hex_not_0x: "lower_hex h \<Longrightarrow> \<not> startswith h ''0x'' \<and> \<not> startswith h ''0X''"
proof (cases h)
  case Nil then show ?thesis by simp
next
  case (Cons x xs)
  assume h: "lower_hex h"
  show ?thesis
  proof (cases xs)
    case Nil with Cons show ?thesis by simp
  next
    case (Cons y ys)
    with \<open>h = x # xs\<close> h have "is_hex y" by (simp add: lower_hex_def)
    then have "y \<noteq> CHR ''x'' \<and> y \<noteq> CHR ''X''" using hex_plain by blast
    with Cons \<open>h = x # xs\<close> show ?thesis by simp
  qed
qed

lemma int_base16_lower_hex:
  assumes h: "lower_hex h" and ne: "h \<noteq> []"
  shows "int_base16 h = Some (int (digits16_value h))"
proof -
  have mem: "\<And>c. c \<in> set h \<Longrightarrow> is_hex c"
    using h lower_hex_mem by blast
  have ascii: "to_ascii h = h"
    using mem hex_ascii by (auto simp: to_ascii_def list_all_iff)
  have hd: "is_hex (hd h)" using mem ne by simp
  have sp: "dropWhile isspace h = h"
    using hd ne hex_plain [OF hd] by (cases h) auto
  have sign: "\<not> startswith h ''+''" "\<not> startswith h ''-''" "\<not> startswith h ''_''"
    using hd ne hex_plain [OF hd] by (cases h; auto)+
  have all: "\<forall>c\<in>set h. is_digit16 c \<or> c = CHR ''_''"
    using mem hex_is_digit16 by blast
  have run: "takeWhile (\<lambda>c. is_digit16 c \<or> c = CHR ''_'') h = h"
    using all by (simp add: takeWhile_eq_all_conv)
  have rest: "dropWhile (\<lambda>c. is_digit16 c \<or> c = CHR ''_'') h = []"
    using all by simp
  have us: "CHR ''_'' \<notin> set h" using mem hex_plain by blast
  then have nocont: "\<not> contains ''__'' h" using contains_mem by blast
  have last: "last h \<noteq> CHR ''_''" using us ne last_in_set by metis
  have filt: "filter (\<lambda>c. c \<noteq> CHR ''_'') h = h" using us by (auto simp: filter_id_conv)
  show ?thesis
    using lower_hex_not_0x [OF h] ne
    by (simp add: int_base16_def Let_def ascii sp sign run rest nocont last filt)
qed


lemma lower_hex_filter: "lower_hex a \<Longrightarrow> filter (\<lambda>x. x \<noteq> CHR ''-'') a = a"
  using lower_hex_mem hex_plain by (auto simp: filter_id_conv)

lemma pow_16_32: "(16::nat) ^ 32 = 2 ^ 128"
proof -
  have "(16::nat) ^ 32 = (2 ^ 4) ^ 32" by simp
  also have "\<dots> = 2 ^ (4 * 32)" by (rule power_mult [symmetric])
  finally show ?thesis by simp
qed

lemma UUID_of_hex:
  assumes r: "remove_sub ''-'' (strip ''{}'' (remove_sub ''uuid:'' (remove_sub ''urn:'' s))) = h"
    and h: "lower_hex h" and len: "length h = 32"
  shows "UUID s = Some (int (digits16_value h))"
proof -
  have hne: "h \<noteq> []" using len by auto
  have "digits16_value h < 16 ^ length h" using h by (rule digits16_value_bound)
  then have "digits16_value h < 2 ^ 128" by (simp only: len pow_16_32)
  then have b: "int (digits16_value h) < 2 ^ 128"
    by (metis of_nat_less_iff of_nat_numeral of_nat_power)
  show ?thesis
    unfolding UUID_def Let_def r
    using b by (simp only: len int_base16_lower_hex [OF h hne] option.case if_True if_False simp_thms of_nat_0_le_iff)
qed


lemma hyphenated_to_hex:
  assumes hx: "lower_hex a" "lower_hex b" "lower_hex c" "lower_hex d" "lower_hex e"
    and ne: "a \<noteq> []" "e \<noteq> []"
  shows "remove_sub ''-'' (strip ''{}'' (remove_sub ''uuid:'' (remove_sub ''urn:''
           (a @ ''-'' @ b @ ''-'' @ c @ ''-'' @ d @ ''-'' @ e)))) = a @ b @ c @ d @ e"
proof -
  define s where "s = a @ ''-'' @ b @ ''-'' @ c @ ''-'' @ d @ ''-'' @ e"
  have mem: "is_hex x \<or> x = CHR ''-''" if "x \<in> set s" for x
    using that hx lower_hex_mem unfolding s_def by auto
  have nu: "CHR ''u'' \<notin> set s"
    using mem hex_plain by blast
  have r1: "remove_sub ''urn:'' s = s" using nu by (rule remove_sub_absent)
  have r2: "remove_sub ''uuid:'' s = s" using nu by (rule remove_sub_absent)
  have sne: "s \<noteq> []" by (simp add: s_def)
  have "hd s = hd a" "last s = last e" using ne by (simp_all add: s_def)
  moreover have "is_hex (hd a)" "is_hex (last e)"
    using hx(1,5) ne lower_hex_mem by auto
  ultimately have "hd s \<notin> set ''{}''" "last s \<notin> set ''{}''"
    using hex_plain by auto
  then have r3: "strip ''{}'' s = s" using sne by (intro strip_id)
  have r4: "remove_sub ''-'' s = a @ b @ c @ d @ e"
    using hx by (simp add: s_def remove_sub_char lower_hex_filter)
  show ?thesis
    unfolding s_def [symmetric] by (simp only: r1 r2 r3 r4)
qed

lemma canonical_uuid_accepted: "canonical_uuid s \<Longrightarrow> UUID s \<noteq> None"
proof -
  assume c: "canonical_uuid s"
  define a b c' d e where "a = take 8 s" and "b = take 4 (drop 9 s)" and "c' = take 4 (drop 14 s)"
    and "d = take 4 (drop 19 s)" and "e = drop 24 s"
  from c have len: "length s = 36" and s: "s = a @ ''-'' @ b @ ''-'' @ c' @ ''-'' @ d @ ''-'' @ e"
    and hx: "lower_hex (a @ b @ c' @ d @ e)"
    unfolding canonical_uuid_def Let_def a_def b_def c'_def d_def e_def by blast+
  have l: "length (a @ b @ c' @ d @ e) = 32" "a \<noteq> []" "e \<noteq> []"
    using len by (auto simp: a_def b_def c'_def d_def e_def)
  have "remove_sub ''-'' (strip ''{}'' (remove_sub ''uuid:'' (remove_sub ''urn:'' s))) = a @ b @ c' @ d @ e"
    using hyphenated_to_hex [of a b c' d e] hx l(2,3) s by simp
  from UUID_of_hex [OF this hx l(1)] show ?thesis by simp
qed

lemma is_hex_hex_digit: "is_hex (hex_digit d)"
  unfolding is_hex_def hex_digit_def by (rule nth_mem) simp

lemma hex32_lower_hex: "lower_hex (hex32 w)"
  by (simp add: lower_hex_def hex32_def list_all_iff is_hex_hex_digit)

lemma canonical_str_UUID: "canonical_uuid (str_UUID w)"
proof -
  have l: "length (hex32 w) = 32" by (simp add: hex32_def)
  have h: "take 8 (hex32 w) @ take 4 (drop 8 (hex32 w)) @ take 4 (drop 12 (hex32 w))
           @ take 4 (drop 16 (hex32 w)) @ drop 20 (hex32 w) = hex32 w"
  proof -
    have "\<And>n m xs. take n (drop m xs) @ drop (m + n) xs = drop m (xs::string)"
      by (metis append_take_drop_id drop_drop add.commute)
    from this [of 4 16 "hex32 w"] this [of 4 12 "hex32 w"] this [of 4 8 "hex32 w"] this [of 8 0 "hex32 w"]
    show ?thesis by simp
  qed
  show ?thesis
    unfolding canonical_uuid_def str_UUID_def Let_def
    using hex32_lower_hex [of w] by (simp add: l h)
qed

section \<open>The example installation\<close>

lemma canonical_demo_id: "canonical_uuid demo_id"
  by (simp add: canonical_uuid_def demo_id_def lower_hex_def is_hex_def)

lemma UUID_demo_id: "UUID demo_id \<noteq> None"
  using canonical_demo_id by (rule canonical_uuid_accepted)

lemma demo_work_path: "path_div WORK_DIR demo_id = [''webclan'', ''work'', demo_id]"
  by (subst path_div_single) (simp_all add: demo_id_def WORK_DIR_def)

lemma demo_binary_path:
  "basename ''freq'' = ''freq''"
  "path_div BIN_DIR ''freq'' = [''webclan'', ''unix'', ''bin'', ''freq'']"
  by (simp_all add: basename_def path_div_def Path_parts_def BIN_DIR_def)

lemma demo_valid: "validation_errors demo_request = []"
  using UUID_demo_id
  by (auto simp: validation_errors_def demo_request_def validate_unique_id_def validate_binary_def
      validate_args_def re_match_class_def ascii_letters_digits_def forbidden_chars_def)

lemmas fs_eval = node_at_def SYMLOOP_MAX_def resolve_def stat_def path_exists_def is_dir_def
  is_file_def st_size_def access_X_OK_def resolved_startswith_def

lemma demo_execute:
  "execute echo_exec demo_request demo_world =
     (Inr \<lparr>ex_unique_id = demo_id, ex_binary = ''freq'', ex_returncode = 0,
           ex_stdout = ''chip.cha'', ex_stderr = []\<rparr>,
      demo_world\<lparr>spawned := [the_launch demo_request]\<rparr>)"
  unfolding execute_def demo_valid execute_command_def
  apply (simp add: demo_request_def demo_work_path demo_binary_path Let_def)
  apply (simp add: fs_eval demo_world_def demo_files_def base_files_def str_path_def BIN_DIR_def)
  apply (simp add: subprocess_run_def echo_exec_def the_launch_def demo_request_def demo_work_path demo_binary_path
          str_path_def)
  done
section \<open>The launch of \<^verbatim>\<open>execute_command\<close>\<close>

lemma subprocess_run_spawned:
  "spawned (snd (subprocess_run os kw w)) =
     spawned w @ [\<lparr>argv = (if kw_shell kw then [''/bin/sh'', ''-c''] @ kw_args kw else kw_args kw),
                   cwd = kw_cwd kw,
                   envp = (case kw_env kw of None \<Rightarrow> environ w | Some e \<Rightarrow> e)\<rparr>]"
  by (simp add: subprocess_run_def Let_def split: completion.splits)

lemma execute_command_snd:
  "snd (execute_command os request w) = w \<or>
   snd (execute_command os request w) =
     snd (subprocess_run os
            \<lparr>kw_args = str_path (path_div BIN_DIR (basename (req_binary request))) # req_args request,
             kw_cwd = str_path (path_div WORK_DIR (req_unique_id request)),
             kw_capture_output = True,
             kw_timeout = COMMAND_TIMEOUT,
             kw_shell = False,
             kw_text = True,
             kw_env = Some [(''PATH'', str_path BIN_DIR),
                            (''HOME'', str_path (path_div WORK_DIR (req_unique_id request))),
                            (''LANG'', ''C.UTF-8'')]\<rparr> w)"
  unfolding execute_command_def Let_def
  by (simp split: prod.splits run_outcome.splits)

lemma str_path_BIN_DIR: "str_path BIN_DIR = ''/webclan/unix/bin''"
  by (simp add: str_path_def BIN_DIR_def)

lemma execute_command_spawned:
  "spawned (snd (execute_command os request w)) = spawned w \<or>
   spawned (snd (execute_command os request w)) = spawned w @ [the_launch request]"
  using execute_command_snd [of os request w]
  by (auto simp: subprocess_run_spawned the_launch_def str_path_BIN_DIR)

lemma execute_command_environ:
  "spawned (snd (execute_command os request (w\<lparr>environ := e\<rparr>)))
     = spawned (snd (execute_command os request w))"
  unfolding execute_command_def Let_def
  by (simp add: subprocess_run_def Let_def split: prod.splits run_outcome.splits completion.splits)

text \<open>
  Claim C9. When \<^verbatim>\<open>/execute\<close> launches a subprocess, the launch is the one the
  request alone determines: the argument list is the binary's path in the binaries
  directory followed by the caller's arguments, handed to the operating system as it
  is (no shell in front of it); the working directory is the workspace directory
  \<^verbatim>\<open>WORK_DIR / unique_id\<close>; the environment is exactly \<^verbatim>\<open>PATH\<close> (the binaries
  directory), \<^verbatim>\<open>HOME\<close> (the workspace directory) and \<^verbatim>\<open>LANG=C.UTF-8\<close>. Whatever
  the environment of the server process is replaced by, the launch is the same.
\<close>

theorem launch_fixed_by_request:
  assumes "spawned (snd (execute os request w)) \<noteq> spawned w"
  shows "\<forall>e. spawned (snd (execute os request (w\<lparr>environ := e\<rparr>)))
              = spawned w @ [the_launch request]"
proof
  fix e
  from assms have v: "validation_errors request = []"
    by (auto simp: execute_def split: if_splits)
  with assms have "spawned (snd (execute_command os request w)) \<noteq> spawned w"
    by (simp add: execute_def)
  with execute_command_spawned [of os request w]
  have "spawned (snd (execute_command os request w)) = spawned w @ [the_launch request]"
    by blast
  then show "spawned (snd (execute os request (w\<lparr>environ := e\<rparr>))) = spawned w @ [the_launch request]"
    using v by (simp add: execute_def execute_command_environ)
qed

theorem launch_fixed_by_request_witness:
  "spawned (snd (execute echo_exec demo_request demo_world)) \<noteq> spawned demo_world
   \<and> spawned (snd (execute echo_exec demo_request (demo_world\<lparr>environ := []\<rparr>)))
       = [\<lparr>argv = [''/webclan/unix/bin/freq'', ''chip.cha''],
           cwd = ''/webclan/work/01234567-89ab-4def-8123-456789abcdef'',
           envp = [(''PATH'', ''/webclan/unix/bin''),
                   (''HOME'', ''/webclan/work/01234567-89ab-4def-8123-456789abcdef''),
                   (''LANG'', ''C.UTF-8'')]\<rparr>]"
proof -
  have l: "the_launch demo_request =
      \<lparr>argv = [''/webclan/unix/bin/freq'', ''chip.cha''],
       cwd = ''/webclan/work/01234567-89ab-4def-8123-456789abcdef'',
       envp = [(''PATH'', ''/webclan/unix/bin''),
               (''HOME'', ''/webclan/work/01234567-89ab-4def-8123-456789abcdef''),
               (''LANG'', ''C.UTF-8'')]\<rparr>"
    by (simp add: the_launch_def demo_request_def demo_work_path demo_binary_path str_path_def)
      (simp add: demo_id_def)
  have p: "spawned (snd (execute echo_exec demo_request demo_world)) \<noteq> spawned demo_world"
    by (simp add: demo_execute) (simp add: demo_world_def)
  from launch_fixed_by_request [OF p] show ?thesis
    using p l by (simp add: demo_world_def)
qed

section \<open>Uploads\<close>

lemma canonical_uuid_chars:
  assumes "canonical_uuid s"
  shows "CHR ''/'' \<notin> set s \<and> s \<noteq> [] \<and> s \<noteq> ''.''"
proof -
  define a b c d e where "a = take 8 s" and "b = take 4 (drop 9 s)" and "c = take 4 (drop 14 s)"
    and "d = take 4 (drop 19 s)" and "e = drop 24 s"
  from assms have len: "length s = 36" and s: "s = a @ ''-'' @ b @ ''-'' @ c @ ''-'' @ d @ ''-'' @ e"
    and hx: "lower_hex (a @ b @ c @ d @ e)"
    unfolding canonical_uuid_def Let_def a_def b_def c_def d_def e_def by blast+
  have "set s = set a \<union> set b \<union> set c \<union> set d \<union> set e \<union> {CHR ''-''}"
    by (subst s) auto
  moreover have "\<forall>x \<in> set a \<union> set b \<union> set c \<union> set d \<union> set e. is_hex x"
    using hx by (auto simp: lower_hex_def list_all_iff)
  moreover have "\<not> is_hex (CHR ''/'')" by (simp add: is_hex_def)
  ultimately have "CHR ''/'' \<notin> set s" by auto
  moreover have "s \<noteq> []" "s \<noteq> ''.''" using len by auto
  ultimately show ?thesis by simp
qed


lemma uuid4_work_path: "path_div WORK_DIR (str_UUID u) = WORK_DIR @ [str_UUID u]"
  using canonical_uuid_chars [OF canonical_str_UUID, of u] by (simp add: path_div_single)

lemma upload_file_success:
  assumes "upload_file random fault filename content w = (Inr r, w1)"
  shows "validate_filename filename \<and> length content \<le> MAX_FILE_SIZE \<and> validate_file_content content
     \<and> (\<exists>fs1 fs2.
          Path_mkdir (files w) (path_div WORK_DIR (str_UUID (uuid4 random))) False = Inr fs1
        \<and> write_file fs1 (path_div (path_div WORK_DIR (str_UUID (uuid4 random))) filename) content fault
             = (Inr (), fs2)
        \<and> w1 = w\<lparr>files := fs2\<rparr>
        \<and> r = \<lparr>up_unique_id = str_UUID (uuid4 random), up_filename = filename,
                up_size = length content,
                up_path = str_path (path_div (path_div WORK_DIR (str_UUID (uuid4 random))) filename)\<rparr>)"
proof -
  let ?wp = "path_div WORK_DIR (str_UUID (uuid4 random))"
  have 1: "\<not> (filename = [] \<or> \<not> validate_filename filename)"
  proof
    assume "filename = [] \<or> \<not> validate_filename filename"
    then have "fst (upload_file random fault filename content w) = Inl (HTTPException 400
        ''Invalid filename. Must be alphanumeric with .cha extension and no path separators'')"
      unfolding upload_file_def by (subst if_P) simp_all
    with assms show False by simp
  qed
  have 2: "\<not> length content > MAX_FILE_SIZE"
  proof
    assume "length content > MAX_FILE_SIZE"
    then have "\<exists>e. fst (upload_file random fault filename content w) = Inl e"
      unfolding upload_file_def using 1 by (subst if_not_P, simp, subst if_P) simp_all
    with assms show False by simp
  qed
  have 3: "validate_file_content content"
  proof (rule ccontr)
    assume "\<not> validate_file_content content"
    then have "\<exists>e. fst (upload_file random fault filename content w) = Inl e"
      unfolding upload_file_def using 1 2
      by (subst if_not_P, simp, subst if_not_P, simp, subst if_P) simp_all
    with assms show False by simp
  qed
  have u: "upload_file random fault filename content w =
      (case Path_mkdir (files w) ?wp False of
             Inl e \<Rightarrow>
               if e = FileExistsError
               then (Inl (HTTPException 500 ''Failed to create unique workspace''), w)
               else (Inl (HTTPException 500 ''Internal Server Error''), w)
           | Inr fs1 \<Rightarrow>
               (case write_file fs1 (path_div ?wp filename) content fault of
                     (Inl e, fs2) \<Rightarrow>
                       (Inl (HTTPException 500 ''Failed to save file''),
                        w\<lparr>files := rmtree_ignore_errors fs2 ?wp\<rparr>)
                   | (Inr u, fs2) \<Rightarrow>
                       (Inr \<lparr>up_unique_id = str_UUID (uuid4 random),
                             up_filename = filename,
                             up_size = length content,
                             up_path = str_path (path_div ?wp filename)\<rparr>,
                        w\<lparr>files := fs2\<rparr>)))"
    unfolding upload_file_def Let_def using 1 2 3
    by (subst if_not_P, simp, subst if_not_P, simp, subst if_not_P, simp) (rule refl)
  obtain fs1 where 4: "Path_mkdir (files w) ?wp False = Inr fs1"
    using assms unfolding u by (cases "Path_mkdir (files w) ?wp False") (simp_all split: if_splits)
  obtain res fs2 where 5: "write_file fs1 (path_div ?wp filename) content fault = (res, fs2)"
    by (cases "write_file fs1 (path_div ?wp filename) content fault") auto
  have 6: "res = Inr ()"
    using assms by (cases res) (simp_all add: u 4 5)
  show ?thesis
    using assms 1 2 3 4 by (simp add: u 5 6)
qed


lemma str_path_WORK_DIR: "str_path WORK_DIR = ''/webclan/work''"
  by (simp add: str_path_def WORK_DIR_def)

text \<open>
  Claim C10. The response of a successful upload carries the identifier, the file
  name and the size, and also the absolute path of the stored file on the server: the
  workspace root, the identifier and the file name, joined.
\<close>

theorem upload_response_has_path:
  assumes "upload_file random fault filename content w = (Inr r, w1)"
  shows "up_unique_id r = str_UUID (uuid4 random) \<and> up_filename r = filename
         \<and> up_size r = length content
         \<and> up_path r = ''/webclan/work/'' @ up_unique_id r @ ''/'' @ up_filename r"
proof -
  from upload_file_success [OF assms] have v: "validate_filename filename"
    and r: "r = \<lparr>up_unique_id = str_UUID (uuid4 random), up_filename = filename,
                up_size = length content,
                up_path = str_path (path_div (path_div WORK_DIR (str_UUID (uuid4 random))) filename)\<rparr>"
    by blast+
  have p: "path_div (path_div WORK_DIR (str_UUID (uuid4 random))) filename
             = WORK_DIR @ [str_UUID (uuid4 random), filename]"
    using validate_filename_single [OF v] by (simp add: uuid4_work_path path_div_single)
  have "str_path (WORK_DIR @ [str_UUID (uuid4 random), filename])
          = ''/webclan/work/'' @ str_UUID (uuid4 random) @ ''/'' @ filename"
    by (simp add: str_path_def WORK_DIR_def)
  with p show ?thesis by (simp add: r)
qed

lemma demo_uuid4: "str_UUID (uuid4 demo_random) = demo_id"
  by (simp add: demo_random_def demo_id_def str_UUID_def uuid4_def hex32_def hex_digit_def upt_rec)

lemma demo_file_path: "path_div [''webclan'', ''work'', demo_id] ''chip.cha'' = [''webclan'', ''work'', demo_id, ''chip.cha'']"
  by (simp add: path_div_def Path_parts_def)

lemma demo_filename: "validate_filename ''chip.cha''"
  by (simp add: validate_filename_def endswith_def lower_def lower_char_def ALLOWED_EXTENSION_def
      re_match_class_def ascii_letters_digits_def)

lemma demo_id_neq: "demo_id \<noteq> ''..''" "''chip.cha'' \<noteq> demo_id" "demo_id \<noteq> ''chip.cha''"
  by (simp_all add: demo_id_def)

lemma demo_mkdir:
  "Path_mkdir base_files [''webclan'', ''work'', demo_id] False
     = Inr (([''webclan'', ''work'', demo_id], Dir) # base_files)"
  by (simp add: Path_mkdir.simps os_mkdir_def SYMLOOP_MAX_def node_at_def base_files_def demo_id_neq)

lemma demo_upload:
  "upload_file demo_random None ''chip.cha'' [0x61, 0x20, 0x62, 0x20, 0x63] base_world =
     (Inr \<lparr>up_unique_id = demo_id, up_filename = ''chip.cha'', up_size = 5,
           up_path = str_path [''webclan'', ''work'', demo_id, ''chip.cha'']\<rparr>, demo_world)"
  unfolding upload_file_def demo_uuid4 Let_def demo_work_path
  apply (simp add: demo_filename MAX_FILE_SIZE_def validate_file_content_def decode_utf8_def
      base_world_def demo_mkdir demo_file_path)
  apply (simp add: write_file_def SYMLOOP_MAX_def node_at_def base_files_def demo_world_def demo_files_def demo_id_neq demo_file_path base_world_def)
  done

theorem upload_response_has_path_witness:
  "\<exists>r w1. upload_file demo_random None ''chip.cha'' [0x61, 0x20, 0x62, 0x20, 0x63] base_world = (Inr r, w1)
     \<and> up_path r = ''/webclan/work/01234567-89ab-4def-8123-456789abcdef/chip.cha''"
proof -
  have "str_path [''webclan'', ''work'', demo_id, ''chip.cha'']
          = ''/webclan/work/01234567-89ab-4def-8123-456789abcdef/chip.cha''"
    by (simp add: str_path_def demo_id_def)
  with upload_response_has_path [OF demo_upload] demo_upload show ?thesis
    by simp
qed

section \<open>The binaries directory\<close>

lemma execute_command_cases:
  "(\<exists>e. execute_command os request w = (Inl e, w)) \<or>
   execute_command os request w =
     (case subprocess_run os (the_kwargs request) w of
        (CompletedProcess rc out err, w1) \<Rightarrow>
          (Inr \<lparr>ex_unique_id = req_unique_id request,
                ex_binary = basename (req_binary request),
                ex_returncode = rc, ex_stdout = out, ex_stderr = err\<rparr>, w1)
      | (TimeoutExpired out err, w1) \<Rightarrow>
          (Inl (HTTPException 408
             (''Command timed out after '' @ str_nat COMMAND_TIMEOUT @ '' seconds'')), w1)
      | (OtherException, w1) \<Rightarrow> (Inl (HTTPException 500 ''Command execution failed''), w1))"
  unfolding execute_command_def Let_def the_kwargs_def
  by simp

lemma execute_command_passes:
  assumes "path_exists (files w) (path_div WORK_DIR (req_unique_id request))"
    and "is_dir (files w) (path_div WORK_DIR (req_unique_id request))"
    and "path_exists (files w) (path_div BIN_DIR (basename (req_binary request)))"
    and "access_X_OK (files w) (path_div BIN_DIR (basename (req_binary request)))"
    and "resolved_startswith (files w) (path_div BIN_DIR (basename (req_binary request))) BIN_DIR = Some True"
  shows "spawned (snd (execute_command os request w)) = spawned w @ [the_launch request]"
proof -
  have "snd (execute_command os request w) = snd (subprocess_run os (the_kwargs request) w)"
    unfolding execute_command_def Let_def the_kwargs_def using assms
    by (simp split: prod.splits run_outcome.splits)
  then show ?thesis
    by (simp add: subprocess_run_spawned the_kwargs_def the_launch_def str_path_BIN_DIR)
qed

lemma escape_valid: "validation_errors escape_request = []"
  using UUID_demo_id
  by (auto simp: validation_errors_def escape_request_def validate_unique_id_def validate_binary_def
      validate_args_def re_match_class_def ascii_letters_digits_def)

lemma escape_binary_path:
  "basename ''tool'' = ''tool''"
  "path_div BIN_DIR ''tool'' = [''webclan'', ''unix'', ''bin'', ''tool'']"
  by (simp_all add: basename_def path_div_def Path_parts_def BIN_DIR_def)

lemma escape_resolve:
  "resolve (files escape_world) [''webclan'', ''unix'', ''bin'', ''tool'']
     = Inr [''webclan'', ''unix'', ''bin-old'', ''tool'']"
  by (simp add: resolve_def escape_world_def demo_files_def base_files_def SYMLOOP_MAX_def Path_parts_def)

text \<open>
  Claim C1, at the input where the code leaves it. The binary name \<^verbatim>\<open>tool\<close> passes
  validation; \<^verbatim>\<open>/webclan/unix/bin/tool\<close> is a symbolic link that resolves to
  \<^verbatim>\<open>/webclan/unix/bin-old/tool\<close>, which is not under the binaries directory; the check
  compares the two paths as strings, \<^verbatim>\<open>/webclan/unix/bin-old/tool\<close> starts with
  \<^verbatim>\<open>/webclan/unix/bin\<close>, and the subprocess is launched, whatever the program does.
\<close>

theorem planted_symlink_is_executed:
  "validation_errors escape_request = []
   \<and> resolve (files escape_world) (path_div BIN_DIR (basename (req_binary escape_request)))
       = Inr [''webclan'', ''unix'', ''bin-old'', ''tool'']
   \<and> \<not> under BIN_DIR [''webclan'', ''unix'', ''bin-old'', ''tool'']
   \<and> spawned (snd (execute os escape_request escape_world)) = [the_launch escape_request]"
proof -
  have g: "path_exists (files escape_world) [''webclan'', ''work'', demo_id]"
      "is_dir (files escape_world) [''webclan'', ''work'', demo_id]"
      "path_exists (files escape_world) [''webclan'', ''unix'', ''bin'', ''tool'']"
      "access_X_OK (files escape_world) [''webclan'', ''unix'', ''bin'', ''tool'']"
    by (simp_all add: fs_eval escape_world_def demo_files_def base_files_def Path_parts_def)
  have r: "resolved_startswith (files escape_world) [''webclan'', ''unix'', ''bin'', ''tool''] BIN_DIR = Some True"
    unfolding resolved_startswith_def escape_resolve
    by (simp add: resolve_def BIN_DIR_def escape_world_def demo_files_def base_files_def SYMLOOP_MAX_def str_path_def)
  have "spawned (snd (execute_command os escape_request escape_world))
          = spawned escape_world @ [the_launch escape_request]"
    by (rule execute_command_passes)
       (simp_all add: escape_request_def demo_work_path escape_binary_path g r)
  moreover have "spawned escape_world = []"
    by (simp add: escape_world_def)
  ultimately have d: "spawned (snd (execute os escape_request escape_world)) = [the_launch escape_request]"
    by (simp add: execute_def escape_valid)
  have b: "resolve (files escape_world) (path_div BIN_DIR (basename (req_binary escape_request)))
       = Inr [''webclan'', ''unix'', ''bin-old'', ''tool'']"
    by (simp add: escape_request_def escape_binary_path escape_resolve)
  have c: "\<not> under BIN_DIR [''webclan'', ''unix'', ''bin-old'', ''tool'']"
    by (simp add: under_def BIN_DIR_def)
  from escape_valid b c d show ?thesis by blast
qed

section \<open>The timeout\<close>

lemma str_nat_timeout: "str_nat COMMAND_TIMEOUT = ''300''"
  by (simp add: COMMAND_TIMEOUT_def str_nat.simps)

lemma execute_command_launched:
  assumes "spawned (snd (execute_command os request w)) \<noteq> spawned w"
  shows "execute_command os request w =
     (case subprocess_run os (the_kwargs request) w of
        (CompletedProcess rc out err, w1) \<Rightarrow>
          (Inr \<lparr>ex_unique_id = req_unique_id request,
                ex_binary = basename (req_binary request),
                ex_returncode = rc, ex_stdout = out, ex_stderr = err\<rparr>, w1)
      | (TimeoutExpired out err, w1) \<Rightarrow>
          (Inl (HTTPException 408
             (''Command timed out after '' @ str_nat COMMAND_TIMEOUT @ '' seconds'')), w1)
      | (OtherException, w1) \<Rightarrow> (Inl (HTTPException 500 ''Command execution failed''), w1))"
  using execute_command_cases [of os request w] assms by auto

lemma launch_of_kwargs:
  "\<lparr>argv = (if kw_shell (the_kwargs request) then [''/bin/sh'', ''-c''] @ kw_args (the_kwargs request)
             else kw_args (the_kwargs request)),
    cwd = kw_cwd (the_kwargs request),
    envp = (case kw_env (the_kwargs request) of None \<Rightarrow> environ w | Some e \<Rightarrow> e)\<rparr>
   = the_launch request"
  by (simp add: the_kwargs_def the_launch_def str_path_BIN_DIR)

text \<open>
  Claim C6, as the code has it. When the launched child has not exited within the
  budget of 300 seconds, \<^verbatim>\<open>/execute\<close> answers with status 408 and a fixed detail: the
  output read so far is in the \<^verbatim>\<open>TimeoutExpired\<close> exception and is dropped with it.
  \<^verbatim>\<open>subprocess.run\<close> has killed the child and waited for it; the server signals no
  other process, so every other process of the child's tree that was alive when the
  budget ran out is alive afterwards.
\<close>

theorem timeout_kills_only_the_child:
  assumes "spawned (snd (execute os request w)) \<noteq> spawned w"
    and "completion (os (the_launch request) COMMAND_TIMEOUT (files w)) = Expired out err"
  shows "execute os request w =
     (Inl (HTTPException 408 ''Command timed out after 300 seconds''),
      w\<lparr>files := files_after (os (the_launch request) COMMAND_TIMEOUT (files w)),
        spawned := spawned w @ [the_launch request],
        procs := procs w @ filter (\<lambda>p. p \<noteq> child (os (the_launch request) COMMAND_TIMEOUT (files w)))
                             (tree (os (the_launch request) COMMAND_TIMEOUT (files w)))\<rparr>)"
proof -
  from assms(1) have v: "validation_errors request = []"
    by (auto simp: execute_def split: if_splits)
  with assms(1) have "spawned (snd (execute_command os request w)) \<noteq> spawned w"
    by (simp add: execute_def)
  note e = execute_command_launched [OF this]
  have t: "kw_timeout (the_kwargs request) = COMMAND_TIMEOUT"
    by (simp add: the_kwargs_def)
  have "subprocess_run os (the_kwargs request) w =
      (TimeoutExpired out err,
       w\<lparr>files := files_after (os (the_launch request) COMMAND_TIMEOUT (files w)),
         spawned := spawned w @ [the_launch request],
         procs := procs w @ filter (\<lambda>p. p \<noteq> child (os (the_launch request) COMMAND_TIMEOUT (files w)))
                             (tree (os (the_launch request) COMMAND_TIMEOUT (files w)))\<rparr>)"
    unfolding subprocess_run_def Let_def launch_of_kwargs t
    using assms(2) by simp
  then show ?thesis
    using v by (simp add: execute_def e str_nat_timeout)
qed


lemma demo_sleep:
  "execute sleep_exec demo_request demo_world =
     (Inl (HTTPException 408 ''Command timed out after 300 seconds''),
      demo_world\<lparr>spawned := [the_launch demo_request], procs := [101]\<rparr>)"
  unfolding execute_def demo_valid execute_command_def
  apply (simp add: demo_request_def demo_work_path demo_binary_path Let_def)
  apply (simp add: fs_eval demo_world_def demo_files_def base_files_def str_path_def BIN_DIR_def)
  apply (simp add: subprocess_run_def sleep_exec_def the_launch_def demo_request_def demo_work_path
          demo_binary_path str_path_def str_nat_timeout)
  done

theorem timeout_kills_only_the_child_witness:
  "spawned (snd (execute sleep_exec demo_request demo_world)) \<noteq> spawned demo_world
   \<and> completion (sleep_exec (the_launch demo_request) COMMAND_TIMEOUT (files demo_world))
       = Expired ''zz'' []
   \<and> execute sleep_exec demo_request demo_world =
       (Inl (HTTPException 408 ''Command timed out after 300 seconds''),
        demo_world\<lparr>spawned := [the_launch demo_request], procs := [101]\<rparr>)"
proof -
  have p: "spawned (snd (execute sleep_exec demo_request demo_world)) \<noteq> spawned demo_world"
    by (simp add: demo_sleep) (simp add: demo_world_def)
  have c: "completion (sleep_exec (the_launch demo_request) COMMAND_TIMEOUT (files demo_world))
       = Expired ''zz'' []"
    by (simp add: sleep_exec_def)
  have r: "demo_world
      \<lparr>files := files_after (sleep_exec (the_launch demo_request) COMMAND_TIMEOUT (files demo_world)),
       spawned := spawned demo_world @ [the_launch demo_request],
       procs := procs demo_world
          @ filter (\<lambda>p. p \<noteq> child (sleep_exec (the_launch demo_request) COMMAND_TIMEOUT (files demo_world)))
              (tree (sleep_exec (the_launch demo_request) COMMAND_TIMEOUT (files demo_world)))\<rparr>
      = demo_world\<lparr>spawned := [the_launch demo_request], procs := [101]\<rparr>"
    by (simp add: sleep_exec_def demo_world_def)
  from timeout_kills_only_the_child [OF p c] have
    "execute sleep_exec demo_request demo_world =
       (Inl (HTTPException 408 ''Command timed out after 300 seconds''),
        demo_world\<lparr>spawned := [the_launch demo_request], procs := [101]\<rparr>)"
    unfolding r .
  with p c show ?thesis by blast
qed

text \<open>
  Claim C6 as stated fails: the child started process 101, the request times out, and
  process 101 is still alive after the answer.
\<close>

theorem descendant_survives_timeout:
  "fst (execute sleep_exec demo_request demo_world)
     = Inl (HTTPException 408 ''Command timed out after 300 seconds'')
   \<and> tree (sleep_exec (the_launch demo_request) COMMAND_TIMEOUT (files demo_world)) = [100, 101]
   \<and> procs (snd (execute sleep_exec demo_request demo_world)) = [101]"
  by (simp add: demo_sleep sleep_exec_def)

section \<open>Identifier validation\<close>

lemma validate_unique_id_None: "UUID s = None \<Longrightarrow> validate_unique_id s = Inl ''unique_id must be a valid UUID''"
  by (simp add: validate_unique_id_def)

text \<open>
  Claim C2, as the code has it. Identifier validation is \<^verbatim>\<open>uuid.UUID(v)\<close>: it accepts
  every canonical hyphenated-hex UUID string (and other spellings of a UUID as well).
  For every string it rejects, list, read and destroy answer with status 400 and
  \<^verbatim>\<open>/execute\<close> with the validation error, whatever the files are, and the state is
  left as it was: the file system is not consulted.
\<close>

theorem invalid_identifier_rejected_before_files:
  "(canonical_uuid s \<longrightarrow> UUID s \<noteq> None)
   \<and> (UUID s = None \<longrightarrow>
        list_files s w = Inl (HTTPException 400 ''Invalid unique_id format'')
      \<and> download_file s filename w = Inl (HTTPException 400 ''Invalid unique_id format'')
      \<and> cleanup_workspace s w = (Inl (HTTPException 400 ''Invalid unique_id format''), w)
      \<and> (\<exists>ms. ms \<noteq> [] \<and>
            execute os \<lparr>req_unique_id = s, req_binary = b, req_args = a\<rparr> w
              = (Inl (RequestValidationError ms), w)))"
proof (intro conjI impI)
  assume "canonical_uuid s"
  then show "UUID s \<noteq> None" by (rule canonical_uuid_accepted)
next
  assume n: "UUID s = None"
  show "list_files s w = Inl (HTTPException 400 ''Invalid unique_id format'')"
    using n by (simp add: list_files_def)
  show "download_file s filename w = Inl (HTTPException 400 ''Invalid unique_id format'')"
    using n by (simp add: download_file_def)
  show "cleanup_workspace s w = (Inl (HTTPException 400 ''Invalid unique_id format''), w)"
    using n by (simp add: cleanup_workspace_def)
  have "validation_errors \<lparr>req_unique_id = s, req_binary = b, req_args = a\<rparr> \<noteq> []"
    using n by (simp add: validation_errors_def validate_unique_id_None)
  then show "\<exists>ms. ms \<noteq> [] \<and>
            execute os \<lparr>req_unique_id = s, req_binary = b, req_args = a\<rparr> w
              = (Inl (RequestValidationError ms), w)"
    by (simp add: execute_def)
qed

lemma UUID_nope: "UUID ''not-a-uuid'' = None"
  by (simp add: UUID_def strip_def)

theorem invalid_identifier_rejected_before_files_witness:
  "canonical_uuid demo_id \<and> UUID demo_id \<noteq> None
   \<and> UUID ''not-a-uuid'' = None
   \<and> list_files ''not-a-uuid'' demo_world = Inl (HTTPException 400 ''Invalid unique_id format'')
   \<and> download_file ''not-a-uuid'' ''chip.cha'' demo_world = Inl (HTTPException 400 ''Invalid unique_id format'')
   \<and> cleanup_workspace ''not-a-uuid'' demo_world
       = (Inl (HTTPException 400 ''Invalid unique_id format''), demo_world)"
  using invalid_identifier_rejected_before_files [of demo_id]
    invalid_identifier_rejected_before_files [of "''not-a-uuid''" demo_world "''chip.cha''"]
    canonical_demo_id UUID_nope
  by simp

lemma UUID_unhyphenated: "UUID ''0123456789ab4def8123456789abcdef'' \<noteq> None"
proof -
  have h: "lower_hex ''0123456789ab4def8123456789abcdef''"
    by (simp add: lower_hex_def is_hex_def)
  have "remove_sub ''-'' (strip ''{}'' (remove_sub ''uuid:'' (remove_sub ''urn:''
          ''0123456789ab4def8123456789abcdef''))) = ''0123456789ab4def8123456789abcdef''"
    by (simp add: strip_def)
  from UUID_of_hex [OF this h] show ?thesis by simp
qed

text \<open>
  Claim C2 as stated fails: thirty-two hexadecimal digits without hyphens are not a
  canonical UUID string, yet they pass validation, and the answer of list then depends
  on the files (404 without the directory, a listing with it).
\<close>

theorem unhyphenated_identifier_accepted:
  "\<not> canonical_uuid ''0123456789ab4def8123456789abcdef''
   \<and> UUID ''0123456789ab4def8123456789abcdef'' \<noteq> None
   \<and> validate_unique_id ''0123456789ab4def8123456789abcdef'' = Inr ''0123456789ab4def8123456789abcdef''
   \<and> list_files ''0123456789ab4def8123456789abcdef'' demo_world
       = Inl (HTTPException 404 ''Workspace not found'')
   \<and> list_files ''0123456789ab4def8123456789abcdef''
        (demo_world\<lparr>files := ([''webclan'', ''work'', ''0123456789ab4def8123456789abcdef''], Dir) # demo_files\<rparr>)
       = Inr \<lparr>ls_unique_id = ''0123456789ab4def8123456789abcdef'', ls_files = []\<rparr>"
proof -
  have p: "path_div WORK_DIR ''0123456789ab4def8123456789abcdef''
            = [''webclan'', ''work'', ''0123456789ab4def8123456789abcdef'']"
    by (simp add: path_div_def Path_parts_def WORK_DIR_def)
  have 1: "\<not> canonical_uuid ''0123456789ab4def8123456789abcdef''"
    by (simp add: canonical_uuid_def)
  have 3: "validate_unique_id ''0123456789ab4def8123456789abcdef'' = Inr ''0123456789ab4def8123456789abcdef''"
    using UUID_unhyphenated by (auto simp: validate_unique_id_def)
  have 4: "list_files ''0123456789ab4def8123456789abcdef'' demo_world
       = Inl (HTTPException 404 ''Workspace not found'')"
    using UUID_unhyphenated
    by (simp add: list_files_def p Let_def)
       (simp add: fs_eval demo_world_def demo_files_def base_files_def demo_id_def)
  have 5: "list_files ''0123456789ab4def8123456789abcdef''
        (demo_world\<lparr>files := ([''webclan'', ''work'', ''0123456789ab4def8123456789abcdef''], Dir) # demo_files\<rparr>)
       = Inr \<lparr>ls_unique_id = ''0123456789ab4def8123456789abcdef'', ls_files = []\<rparr>"
    using UUID_unhyphenated
    by (simp add: list_files_def p Let_def)
       (simp add: fs_eval iterdir_def demo_world_def demo_files_def base_files_def demo_id_def)
  from 1 UUID_unhyphenated 3 4 5 show ?thesis by blast
qed

section \<open>Containment in the workspace\<close>









section \<open>Path resolution when files are added or removed\<close>

lemma grows_refl: "grows fs fs"
  by (auto simp: grows_def split: option.splits node.splits)

lemma grows_trans: "grows a b \<Longrightarrow> grows b c \<Longrightarrow> grows a c"
  unfolding grows_def
proof
  fix q
  assume ab: "\<forall>q. case map_of a q of None \<Rightarrow> \<forall>t. map_of b q \<noteq> Some (Symlink t) | Some Dir \<Rightarrow> map_of b q = Some Dir
      | Some (File d x) \<Rightarrow> \<exists>d1 x1. map_of b q = Some (File d1 x1) | Some (Symlink t) \<Rightarrow> map_of b q = Some (Symlink t)"
    and bc: "\<forall>q. case map_of b q of None \<Rightarrow> \<forall>t. map_of c q \<noteq> Some (Symlink t) | Some Dir \<Rightarrow> map_of c q = Some Dir
      | Some (File d x) \<Rightarrow> \<exists>d1 x1. map_of c q = Some (File d1 x1) | Some (Symlink t) \<Rightarrow> map_of c q = Some (Symlink t)"
  from ab [rule_format, of q] bc [rule_format, of q]
  show "case map_of a q of None \<Rightarrow> \<forall>t. map_of c q \<noteq> Some (Symlink t) | Some Dir \<Rightarrow> map_of c q = Some Dir
      | Some (File d x) \<Rightarrow> \<exists>d1 x1. map_of c q = Some (File d1 x1) | Some (Symlink t) \<Rightarrow> map_of c q = Some (Symlink t)"
    by (auto split: option.splits node.splits)
qed

lemma grows_at:
  assumes "grows fs fs1"
  shows "map_of fs q = Some (Symlink t) \<Longrightarrow> map_of fs1 q = Some (Symlink t)"
    and "map_of fs q = Some Dir \<Longrightarrow> map_of fs1 q = Some Dir"
    and "map_of fs q = Some (File d x) \<Longrightarrow> \<exists>d1 x1. map_of fs1 q = Some (File d1 x1)"
    and "map_of fs q = None \<Longrightarrow> map_of fs1 q \<noteq> Some (Symlink t)"
  using assms [unfolded grows_def, rule_format, of q] by (auto split: option.splits node.splits)

lemma walk_grows:
  "walk True n fs cur cs = Inr r \<Longrightarrow> grows fs fs1 \<Longrightarrow> walk True n fs1 cur cs = Inr r"
proof (induction "True" n fs cur cs rule: walk.induct)
  case (1 n fs cur)
  then show ?case by simp
next
  case (2 n fs cur c cs)
  show ?case
  proof (cases "c = ''..''")
    case True
    with 2 show ?thesis by simp
  next
    case False
    note g = grows_at [OF \<open>grows fs fs1\<close>, of "cur @ [c]"]
    show ?thesis
    proof (cases "map_of fs (cur @ [c])")
      case None
      with 2(6) False have cs: "cs = []" and r: "r = cur @ [c]"
        by (auto split: if_splits)
      from g(4) [OF None] show ?thesis
        using False cs r by (auto split: option.splits node.splits)
    next
      case (Some nd)
      show ?thesis
      proof (cases nd)
        case Dir
        with Some False 2 g(2) show ?thesis by simp
      next
        case (File d x)
        with Some g(3) obtain d1 x1 where "map_of fs1 (cur @ [c]) = Some (File d1 x1)" by blast
        with File Some False 2 show ?thesis by (auto split: if_splits)
      next
        case (Symlink t)
        with Some False 2 g(1) show ?thesis by (auto split: if_splits)
      qed
    qed
  qed
qed


lemma walk_snoc:
  "walk True n fs cur cs = Inr r \<Longrightarrow> node_at fs r = Some Dir \<Longrightarrow> c \<noteq> ''..''
   \<Longrightarrow> (\<forall>t. map_of fs (r @ [c]) \<noteq> Some (Symlink t))
   \<Longrightarrow> walk True n fs cur (cs @ [c]) = Inr (r @ [c])"
proof (induction "True" n fs cur cs rule: walk.induct)
  case (1 n fs cur)
  then show ?case by (auto split: option.splits node.splits)
next
  case (2 n fs cur c0 cs)
  show ?case
  proof (cases "c0 = ''..''")
    case True
    with 2 show ?thesis by simp
  next
    case False
    show ?thesis
    proof (cases "map_of fs (cur @ [c0])")
      case None
      with 2(6) False have cs: "cs = []" and r: "r = cur @ [c0]"
        by (auto split: if_splits)
      with None 2(7) show ?thesis by (simp add: node_at_def)
    next
      case (Some nd)
      show ?thesis
      proof (cases nd)
        case Dir
        with Some False 2 show ?thesis by simp
      next
        case (File d x)
        with Some 2(6) False have cs: "cs = []" and r: "r = cur @ [c0]"
          by (auto split: if_splits)
        with File Some 2(7) show ?thesis by (simp add: node_at_def)
      next
        case (Symlink t)
        with Some False 2 show ?thesis by (auto split: if_splits)
      qed
    qed
  qed
qed

lemma walk_shrinks:
  "walk True n fs1 cur cs = Inr r \<Longrightarrow> node_at fs1 r \<noteq> None \<Longrightarrow> shrinks fs fs1
   \<Longrightarrow> walk True n fs cur cs = Inr r"
proof (induction "True" n fs1 cur cs rule: walk.induct)
  case (1 n fs1 cur)
  then show ?case by simp
next
  case (2 n fs1 cur c cs)
  show ?case
  proof (cases "c = ''..''")
    case True
    with 2 show ?thesis by simp
  next
    case False
    show ?thesis
    proof (cases "map_of fs1 (cur @ [c])")
      case None
      with 2(6) False have cs: "cs = []" and r: "r = cur @ [c]"
        by (auto split: if_splits)
      with None 2(7) show ?thesis by (simp add: node_at_def)
    next
      case (Some nd)
      with \<open>shrinks fs fs1\<close> have same: "map_of fs (cur @ [c]) = Some nd"
        unfolding shrinks_def by (metis option.distinct(1))
      show ?thesis
      proof (cases nd)
        case Dir
        with Some same False 2 show ?thesis by simp
      next
        case (File d x)
        with Some same False 2 show ?thesis by (auto split: if_splits)
      next
        case (Symlink t)
        with Some same False 2 show ?thesis by (auto split: if_splits)
      qed
    qed
  qed
qed


lemma grows_node_at_Dir: "grows fs fs1 \<Longrightarrow> node_at fs q = Some Dir \<Longrightarrow> node_at fs1 q = Some Dir"
  using grows_at(2) by (auto simp: node_at_def split: if_splits)

lemma map_of_filter_key:
  "map_of (filter (\<lambda>(k, v). P k) xs) q = (if P q then map_of xs q else None)"
  by (induction xs) auto

lemma grows_cons_new: "map_of fs q = None \<Longrightarrow> grows fs ((q, Dir) # fs)"
  by (auto simp: grows_def split: option.splits node.splits)

lemma os_mkdir_success:
  assumes "os_mkdir fs p = Inr fs1"
  shows "p \<noteq> [] \<and> last p \<noteq> ''..'' \<and>
     (\<exists>rpar. walk True SYMLOOP_MAX fs [] (butlast p) = Inr rpar \<and> node_at fs rpar = Some Dir
        \<and> map_of fs (rpar @ [last p]) = None \<and> fs1 = (rpar @ [last p], Dir) # fs)"
  using assms unfolding os_mkdir_def
  by (auto split: if_splits sum.splits option.splits node.splits)

lemma os_mkdir_grows: "os_mkdir fs p = Inr fs1 \<Longrightarrow> grows fs fs1"
  using os_mkdir_success [of fs p fs1] grows_cons_new by auto

lemma Path_mkdir_cases:
  assumes "Path_mkdir fs p exist_ok = Inr fs1"
  shows "os_mkdir fs p = Inr fs1
     \<or> (p \<noteq> [] \<and> (\<exists>fs0. Path_mkdir fs (butlast p) True = Inr fs0
            \<and> (os_mkdir fs0 p = Inr fs1 \<or> (exist_ok \<and> fs1 = fs0))))
     \<or> (exist_ok \<and> fs1 = fs)"
  using assms by (subst (asm) Path_mkdir.simps) (auto split: sum.splits if_splits)

lemma wf_fs_cons_Dir:
  assumes "wf_fs fs" and "map_of fs q = None" and "q \<noteq> []" and "node_at fs (butlast q) = Some Dir"
  shows "wf_fs ((q, Dir) # fs)"
proof -
  have "node_at ((q, Dir) # fs) (butlast k) = Some Dir" if "node_at fs (butlast k) = Some Dir" for k
    using that assms(2) by (auto simp: node_at_def split: if_splits)
  with assms show ?thesis
    by (auto simp: wf_fs_def list_all_iff)
qed

lemma os_mkdir_wf: "os_mkdir fs p = Inr fs1 \<Longrightarrow> wf_fs fs \<Longrightarrow> wf_fs fs1"
  using os_mkdir_success [of fs p fs1] by (auto intro!: wf_fs_cons_Dir)

lemma Path_mkdir_grows_wf:
  "Path_mkdir fs p exist_ok = Inr fs1 \<Longrightarrow> grows fs fs1 \<and> (wf_fs fs \<longrightarrow> wf_fs fs1)"
proof (induction p arbitrary: fs fs1 exist_ok rule: rev_induct)
  case Nil
  from Path_mkdir_cases [OF Nil] show ?case
    by (auto simp: os_mkdir_def grows_refl)
next
  case (snoc x xs)
  from Path_mkdir_cases [OF snoc.prems] consider
      (a) "os_mkdir fs (xs @ [x]) = Inr fs1"
    | (b) fs0 where "Path_mkdir fs xs True = Inr fs0" "os_mkdir fs0 (xs @ [x]) = Inr fs1"
    | (c) fs0 where "Path_mkdir fs xs True = Inr fs0" "fs1 = fs0"
    | (d) "fs1 = fs"
    by auto
  then show ?case
  proof cases
    case a
    then show ?thesis using os_mkdir_grows os_mkdir_wf by blast
  next
    case b
    from b(1) have ih: "grows fs fs0 \<and> (wf_fs fs \<longrightarrow> wf_fs fs0)"
      by (rule snoc.IH)
    from b(2) have "grows fs0 fs1" "wf_fs fs0 \<longrightarrow> wf_fs fs1"
      using os_mkdir_grows os_mkdir_wf by blast+
    with ih show ?thesis using grows_trans by blast
  next
    case c
    from c(1) have "grows fs fs0 \<and> (wf_fs fs \<longrightarrow> wf_fs fs0)"
      by (rule snoc.IH)
    with c(2) show ?thesis by simp
  next
    case d
    then show ?thesis by (simp add: grows_refl)
  qed
qed

lemma Path_mkdir_new:
  assumes "Path_mkdir fs p False = Inr fs1"
  shows "p \<noteq> [] \<and> last p \<noteq> ''..'' \<and>
     (\<exists>fs0 rpar. grows fs fs0 \<and> (wf_fs fs \<longrightarrow> wf_fs fs0)
        \<and> walk True SYMLOOP_MAX fs0 [] (butlast p) = Inr rpar \<and> node_at fs0 rpar = Some Dir
        \<and> map_of fs0 (rpar @ [last p]) = None \<and> fs1 = (rpar @ [last p], Dir) # fs0)"
proof -
  from Path_mkdir_cases [OF assms] consider
      (a) "os_mkdir fs p = Inr fs1"
    | (b) fs0 where "Path_mkdir fs (butlast p) True = Inr fs0" "os_mkdir fs0 p = Inr fs1"
    by auto
  then show ?thesis
  proof cases
    case a
    from os_mkdir_success [OF this] show ?thesis
      using grows_refl by blast
  next
    case b
    from os_mkdir_success [OF b(2)] Path_mkdir_grows_wf [OF b(1)] show ?thesis
      by blast
  qed
qed


lemma under_refl: "under d d"
  by (simp add: under_def)

lemma rmtree_success:
  assumes "rmtree fs p = Inr fs1"
  shows "p \<noteq> [] \<and> last p \<noteq> ''..'' \<and>
     (\<exists>rpar. walk True SYMLOOP_MAX fs [] (butlast p) = Inr rpar \<and> node_at fs rpar = Some Dir
        \<and> map_of fs (rpar @ [last p]) = Some Dir
        \<and> fs1 = filter (\<lambda>(q, n). \<not> under (rpar @ [last p]) q) fs)"
  using assms unfolding rmtree_def
  by (auto split: if_splits sum.splits option.splits node.splits)

lemma rmtree_Dir:
  assumes "p \<noteq> []" "last p \<noteq> ''..''" "walk True SYMLOOP_MAX fs [] (butlast p) = Inr rpar"
    "node_at fs rpar = Some Dir" "map_of fs (rpar @ [last p]) = Some Dir"
  shows "rmtree fs p = Inr (filter (\<lambda>(q, n). \<not> under (rpar @ [last p]) q) fs)"
  using assms by (simp add: rmtree_def)

lemma shrinks_filter: "shrinks fs (filter (\<lambda>(q, n). P q) fs)"
  by (simp add: shrinks_def map_of_filter_key)

lemma removed_not_exists:
  assumes p: "p \<noteq> []" "last p \<noteq> ''..''"
    and w: "walk True SYMLOOP_MAX fs [] (butlast p) = Inr rpar"
    and d: "node_at fs rpar = Some Dir" "map_of fs (rpar @ [last p]) = Some Dir"
  shows "\<not> path_exists (filter (\<lambda>(q, n). \<not> under (rpar @ [last p]) q) fs) p"
proof
  let ?fs1 = "filter (\<lambda>(q, n). \<not> under (rpar @ [last p]) q) fs"
  assume "path_exists ?fs1 p"
  then obtain r nd where r: "walk True SYMLOOP_MAX ?fs1 [] p = Inr r" and n: "node_at ?fs1 r = Some nd"
    by (auto simp: path_exists_def stat_def split: sum.splits option.splits)
  from walk_shrinks [OF r _ shrinks_filter] n have "walk True SYMLOOP_MAX fs [] p = Inr r"
    by simp
  moreover have "walk True SYMLOOP_MAX fs [] (butlast p @ [last p]) = Inr (rpar @ [last p])"
    using w d p(2) by (intro walk_snoc) auto
  ultimately have "r = rpar @ [last p]" using p(1) by simp
  then have "node_at ?fs1 r = None"
    by (simp add: node_at_def map_of_filter_key under_refl)
  with n show False by simp
qed

lemma rmtree_not_exists: "rmtree fs p = Inr fs1 \<Longrightarrow> \<not> path_exists fs1 p"
  using rmtree_success [of fs p fs1] removed_not_exists by blast

lemma map_of_replace:
  "map_of ((rp, nd) # filter (\<lambda>(q, n). q \<noteq> rp) fs) q = (if q = rp then Some nd else map_of fs q)"
  using map_of_filter_key [of "\<lambda>q. q \<noteq> rp" fs q] by simp

lemma grows_write:
  assumes "map_of fs rp = None \<or> (\<exists>d x. map_of fs rp = Some (File d x))"
  shows "grows fs ((rp, File c y) # filter (\<lambda>(q, n). q \<noteq> rp) fs)"
  unfolding grows_def map_of_replace using assms
  by (auto split: option.splits node.splits)

lemma write_file_grows:
  assumes "write_file fs p content fault = (res, fs2)"
  shows "grows fs fs2"
proof (cases "fs2 = fs")
  case True
  then show ?thesis by (simp add: grows_refl)
next
  case False
  with assms obtain rp c y where rp: "rp \<noteq> []" "node_at fs rp \<noteq> Some Dir"
      "\<not> (case node_at fs rp of Some (Symlink t) \<Rightarrow> True | _ \<Rightarrow> False)"
    and fs2: "fs2 = (rp, File c y) # filter (\<lambda>(q, n). q \<noteq> rp) fs"
    unfolding write_file_def Let_def
    by (auto simp: node_at_def split: if_splits sum.splits option.splits write_fault.splits)
  from rp have "map_of fs rp = None \<or> (\<exists>d x. map_of fs rp = Some (File d x))"
    by (auto simp: node_at_def split: option.splits node.splits)
  then show ?thesis unfolding fs2 by (rule grows_write)
qed


section \<open>Destroying a workspace\<close>






section \<open>A failed upload\<close>

lemma upload_file_valid:
  assumes "filename \<noteq> []" "validate_filename filename" "length content \<le> MAX_FILE_SIZE"
    "validate_file_content content"
  shows "upload_file random fault filename content w =
      (case Path_mkdir (files w) (path_div WORK_DIR (str_UUID (uuid4 random))) False of
             Inl e \<Rightarrow>
               if e = FileExistsError
               then (Inl (HTTPException 500 ''Failed to create unique workspace''), w)
               else (Inl (HTTPException 500 ''Internal Server Error''), w)
           | Inr fs1 \<Rightarrow>
               (case write_file fs1 (path_div (path_div WORK_DIR (str_UUID (uuid4 random))) filename)
                       content fault of
                     (Inl e, fs2) \<Rightarrow>
                       (Inl (HTTPException 500 ''Failed to save file''),
                        w\<lparr>files := rmtree_ignore_errors fs2 (path_div WORK_DIR (str_UUID (uuid4 random)))\<rparr>)
                   | (Inr u, fs2) \<Rightarrow>
                       (Inr \<lparr>up_unique_id = str_UUID (uuid4 random),
                             up_filename = filename,
                             up_size = length content,
                             up_path = str_path (path_div (path_div WORK_DIR (str_UUID (uuid4 random))) filename)\<rparr>,
                        w\<lparr>files := fs2\<rparr>)))"
  unfolding upload_file_def Let_def using assms
  by (subst if_not_P, simp, subst if_not_P, simp, subst if_not_P, simp) (rule refl)

lemma rollback_removes:
  assumes m: "Path_mkdir fs p False = Inr fs1" and g: "grows fs1 fs2"
  shows "\<not> path_exists (rmtree_ignore_errors fs2 p) p"
proof -
  from Path_mkdir_new [OF m] obtain fs0 rpar where p: "p \<noteq> []" "last p \<noteq> ''..''"
    and g0: "grows fs fs0"
    and w0: "walk True SYMLOOP_MAX fs0 [] (butlast p) = Inr rpar" and d0: "node_at fs0 rpar = Some Dir"
    and n0: "map_of fs0 (rpar @ [last p]) = None" and fs1: "fs1 = (rpar @ [last p], Dir) # fs0"
    by blast
  have g1: "grows fs0 fs1" unfolding fs1 using n0 by (rule grows_cons_new)
  have g02: "grows fs0 fs2" using g1 g by (rule grows_trans)
  have w2: "walk True SYMLOOP_MAX fs2 [] (butlast p) = Inr rpar"
    using w0 g02 by (rule walk_grows)
  have d2: "node_at fs2 rpar = Some Dir" using g02 d0 by (rule grows_node_at_Dir)
  have "map_of fs1 (rpar @ [last p]) = Some Dir" by (simp add: fs1)
  then have n2: "map_of fs2 (rpar @ [last p]) = Some Dir" using grows_at(2) [OF g] by blast
  have "rmtree fs2 p = Inr (filter (\<lambda>(q, n). \<not> under (rpar @ [last p]) q) fs2)"
    using p w2 d2 n2 by (rule rmtree_Dir)
  then show ?thesis
    using rmtree_not_exists [of fs2 p] by (simp add: rmtree_ignore_errors_def)
qed

text \<open>
  Claim C7. When the upload has passed validation, the workspace directory has been
  made and the write of the initial file then fails (the open fails, or the write
  fails after some bytes, or the path cannot be written), the upload answers with
  status 500 (\<^verbatim>\<open>Failed to save file\<close>) after \<^verbatim>\<open>shutil.rmtree\<close> has removed the
  directory: in the state it leaves, the workspace directory does not exist, and list
  for the new identifier answers with 404. (Removing a directory the server has just
  made does not fail in this model of the file system; the code ignores such errors.)
\<close>

theorem failed_write_rolls_back:
  assumes "filename \<noteq> []" "validate_filename filename" "length content \<le> MAX_FILE_SIZE"
    "validate_file_content content"
    and "Path_mkdir (files w) (path_div WORK_DIR (str_UUID (uuid4 random))) False = Inr fs1"
    and "write_file fs1 (path_div (path_div WORK_DIR (str_UUID (uuid4 random))) filename) content fault
           = (Inl e, fs2)"
  shows "\<exists>w1. upload_file random fault filename content w
                = (Inl (HTTPException 500 ''Failed to save file''), w1)
           \<and> \<not> path_exists (files w1) (path_div WORK_DIR (str_UUID (uuid4 random)))
           \<and> list_files (str_UUID (uuid4 random)) w1 = Inl (HTTPException 404 ''Workspace not found'')"
proof -
  let ?wp = "path_div WORK_DIR (str_UUID (uuid4 random))"
  let ?w1 = "w\<lparr>files := rmtree_ignore_errors fs2 ?wp\<rparr>"
  have u: "upload_file random fault filename content w = (Inl (HTTPException 500 ''Failed to save file''), ?w1)"
    by (simp add: upload_file_valid [OF assms(1-4)] assms(5,6))
  have g: "grows fs1 fs2" using assms(6) by (rule write_file_grows)
  have ne: "\<not> path_exists (files ?w1) ?wp"
    using rollback_removes [OF assms(5) g] by simp
  have "UUID (str_UUID (uuid4 random)) \<noteq> None"
    using canonical_str_UUID by (rule canonical_uuid_accepted)
  with ne have "list_files (str_UUID (uuid4 random)) ?w1 = Inl (HTTPException 404 ''Workspace not found'')"
    by (simp add: list_files_def)
  with u ne show ?thesis by blast
qed

lemma demo_write_fails:
  "write_file (([''webclan'', ''work'', demo_id], Dir) # base_files)
      [''webclan'', ''work'', demo_id, ''chip.cha''] [0x61, 0x20, 0x62, 0x20, 0x63] (Some (WriteFails 2))
   = (Inl OSError,
      ([''webclan'', ''work'', demo_id, ''chip.cha''], File [0x61, 0x20] False)
      # ([''webclan'', ''work'', demo_id], Dir) # base_files)"
  by (simp add: write_file_def SYMLOOP_MAX_def node_at_def base_files_def demo_id_neq)

theorem failed_write_rolls_back_witness:
  "validate_filename ''chip.cha''
   \<and> validate_file_content [0x61, 0x20, 0x62, 0x20, 0x63]
   \<and> Path_mkdir (files base_world) (path_div WORK_DIR (str_UUID (uuid4 demo_random))) False
       = Inr (([''webclan'', ''work'', demo_id], Dir) # base_files)
   \<and> (\<exists>w1. upload_file demo_random (Some (WriteFails 2)) ''chip.cha'' [0x61, 0x20, 0x62, 0x20, 0x63] base_world
                = (Inl (HTTPException 500 ''Failed to save file''), w1)
           \<and> \<not> path_exists (files w1) (path_div WORK_DIR (str_UUID (uuid4 demo_random))))"
proof -
  have c: "validate_file_content [0x61, 0x20, 0x62, 0x20, 0x63]"
    by (simp add: validate_file_content_def decode_utf8_def)
  have l: "length [0x61, 0x20, 0x62, 0x20, 0x63 :: 8 word] \<le> MAX_FILE_SIZE"
    by (simp add: MAX_FILE_SIZE_def)
  have m: "Path_mkdir (files base_world) (path_div WORK_DIR (str_UUID (uuid4 demo_random))) False
       = Inr (([''webclan'', ''work'', demo_id], Dir) # base_files)"
    by (simp add: demo_uuid4 demo_work_path base_world_def demo_mkdir)
  have w: "write_file (([''webclan'', ''work'', demo_id], Dir) # base_files)
      (path_div (path_div WORK_DIR (str_UUID (uuid4 demo_random))) ''chip.cha'')
      [0x61, 0x20, 0x62, 0x20, 0x63] (Some (WriteFails 2))
     = (Inl OSError,
      ([''webclan'', ''work'', demo_id, ''chip.cha''], File [0x61, 0x20] False)
      # ([''webclan'', ''work'', demo_id], Dir) # base_files)"
    by (simp add: demo_uuid4 demo_work_path demo_file_path demo_write_fails)
  from failed_write_rolls_back [OF _ demo_filename l c m w]
  show ?thesis using demo_filename c m by auto
qed

end
